theory Spec2Isabelle
  imports Main "HOL-Library.Word"
begin

section \<open>Values returned by the Go code\<close>

text \<open>
  The package \<^verbatim>\<open>obj\<close> builds every error with \<^verbatim>\<open>fmt.Errorf\<close>; an error is
  identified here by the place that creates it and by the values its message prints
  (vertex number, line number, wrapped error).  \<^verbatim>\<open>NumError\<close> is the error of
  \<^verbatim>\<open>strconv.ParseInt\<close> and \<^verbatim>\<open>strconv.ParseFloat\<close> for the given text.
\<close>

datatype elem = comElem | posElem | texElem | norElem | facElem | errElem

datatype error =
    NumError string
  | ZeroIndex
  | TooNegative int
  | TooLarge
  | TooManyAttrs nat
  | AttrCountMismatch nat
  | TexElision nat
  | VertexErr nat error
  | VIndexErr nat error
  | VtIndexErr nat error
  | VnIndexErr nat error
  | FieldCount elem
  | LineErr nat error
  | ReadError

text \<open>
  A Go call either returns or panics.  The panics that the modelled code can raise are a
  call of a nil function value, an index out of range, a nil pointer dereference and the
  explicit \<^verbatim>\<open>panic\<close> at the head of \<^verbatim>\<open>addFace\<close>.
\<close>

datatype panic = NilCall | OutOfRange | NilDeref | AddFaceArity

datatype 'a outcome = Panics panic | Returns 'a

section \<open>Library functions used by the package\<close>

subsection \<open>strings.HasPrefix, strings.Split, strings.Fields\<close>

definition HasPrefix :: "string \<Rightarrow> string \<Rightarrow> bool" where
  "HasPrefix s p = (take (length p) s = p)"

text \<open>\<^verbatim>\<open>strings.Split(v, "/")\<close>: one piece more than there are slashes.\<close>

fun Split :: "string \<Rightarrow> string list" where
  "Split [] = [[]]"
| "Split (c # cs) =
     (if c = CHR ''/'' then [] # Split cs
      else (case Split cs of [] \<Rightarrow> [[c]] | x # xs \<Rightarrow> (c # x) # xs))"

text \<open>
  \<^verbatim>\<open>strings.Fields\<close> cuts a string at every run of white space as
  \<^verbatim>\<open>unicode.IsSpace\<close> defines it.  A Go string is a byte sequence read as UTF-8;
  \<open>spaceLen s\<close> is the number of bytes of the white-space code point at the head of
  \<open>s\<close>, or 0 when \<open>s\<close> does not start with one.  The code points are U+0009 to
  U+000D, U+0020, U+0085, U+00A0, U+1680, U+2000 to U+200A, U+2028, U+2029, U+202F,
  U+205F and U+3000.
\<close>

definition asciiSpace :: "char \<Rightarrow> bool" where
  "asciiSpace c =
     (c = CHR 0x09 \<or> c = CHR 0x0A \<or> c = CHR 0x0B \<or> c = CHR 0x0C \<or> c = CHR 0x0D \<or> c = CHR 0x20)"

definition spaceLen :: "string \<Rightarrow> nat" where
  "spaceLen s =
     (case s of
        [] \<Rightarrow> 0
      | c # cs \<Rightarrow>
          if asciiSpace c then 1
          else if c = CHR 0xC2 then
            (case cs of
               d # _ \<Rightarrow> if d = CHR 0x85 \<or> d = CHR 0xA0 then 2 else 0
             | [] \<Rightarrow> 0)
          else if c = CHR 0xE1 then
            (if take 2 cs = [CHR 0x9A, CHR 0x80] then 3 else 0)
          else if c = CHR 0xE2 then
            (case cs of
               d # e # _ \<Rightarrow>
                 if d = CHR 0x80 \<and>
                    (e \<in> set [CHR 0x80, CHR 0x81, CHR 0x82, CHR 0x83, CHR 0x84, CHR 0x85,
                              CHR 0x86, CHR 0x87, CHR 0x88, CHR 0x89, CHR 0x8A,
                              CHR 0xA8, CHR 0xA9, CHR 0xAF])
                    \<or> d = CHR 0x81 \<and> e = CHR 0x9F
                 then 3 else 0
             | _ \<Rightarrow> 0)
          else if c = CHR 0xE3 then
            (if take 2 cs = [CHR 0x80, CHR 0x80] then 3 else 0)
          else 0)"

fun fieldsFrom :: "string \<Rightarrow> string \<Rightarrow> string list" where
  "fieldsFrom cur [] = (if cur = [] then [] else [rev cur])"
| "fieldsFrom cur (c # cs) =
     (if spaceLen (c # cs) = 0 then fieldsFrom (c # cur) cs
      else (if cur = [] then [] else [rev cur])
           @ fieldsFrom [] (drop (spaceLen (c # cs) - 1) cs))"

definition Fields :: "string \<Rightarrow> string list" where
  "Fields s = fieldsFrom [] s"

subsection \<open>strconv.ParseInt with base 10 and bit size 32\<close>

definition digitVal :: "char \<Rightarrow> int option" where
  "digitVal c =
     (let d = (of_char c :: int) - of_char (CHR ''0'')
      in if 0 \<le> d \<and> d \<le> 9 then Some d else None)"

fun parseDigits :: "int \<Rightarrow> string \<Rightarrow> int option" where
  "parseDigits acc [] = Some acc"
| "parseDigits acc (c # cs) =
     (case digitVal c of None \<Rightarrow> None | Some d \<Rightarrow> parseDigits (acc * 10 + d) cs)"

text \<open>
  An optional sign, then at least one decimal digit and nothing else; the value must fit a
  signed 32-bit integer.  Every failure (syntax or range) is a \<^verbatim>\<open>NumError\<close>.
\<close>

definition ParseInt :: "string \<Rightarrow> error + int" where
  "ParseInt s =
     (case s of
        [] \<Rightarrow> Inl (NumError s)
      | c # cs \<Rightarrow>
          let neg = (c = CHR ''-'');
              body = (if c = CHR ''+'' \<or> c = CHR ''-'' then cs else s)
          in if body = [] then Inl (NumError s)
             else (case parseDigits 0 body of
                     None \<Rightarrow> Inl (NumError s)
                   | Some un \<Rightarrow>
                       if \<not> neg \<and> un \<ge> 2 ^ 31 then Inl (NumError s)
                       else if neg \<and> un > 2 ^ 31 then Inl (NumError s)
                       else Inr (if neg then - un else un)))"

section \<open>Package obj\<close>

subsection \<open>toElem, toIndex, adjustIndex\<close>

definition toElem :: "string \<Rightarrow> elem" where
  "toElem s =
     (if HasPrefix s ''#'' then comElem
      else if s = ''v'' then posElem
      else if s = ''vt'' then texElem
      else if s = ''vn'' then norElem
      else if s = ''f'' then facElem
      else errElem)"

definition toIndex :: "string \<Rightarrow> error + int" where
  "toIndex s =
     (case ParseInt s of
        Inl err \<Rightarrow> Inl err
      | Inr val \<Rightarrow> if val = 0 then Inl ZeroIndex else Inr val)"

text \<open>
  Go's \<^verbatim>\<open>int\<close> is modelled by \<^typ>\<open>int\<close>: \<open>attIdx\<close> is a 32-bit value and
  \<open>attLen\<close> a slice length, so neither \<^verbatim>\<open>res += attLen\<close> on a negative \<open>res\<close>
  nor \<^verbatim>\<open>res--\<close> on a non-negative one can overflow.  The variable \<^verbatim>\<open>res\<close> is
  \<open>attIdx + attLen\<close> in the first branch and \<open>attIdx - 1\<close> in the second; the test
  \<^verbatim>\<open>res > attLen\<close> follows both.
\<close>

definition adjustIndex :: "int \<Rightarrow> int \<Rightarrow> error + int" where
  "adjustIndex attIdx attLen =
     (if attIdx < 0 then
        (if attIdx + attLen < 0 then Inl (TooNegative attIdx)
         else if attIdx + attLen > attLen then Inl TooLarge
         else Inr (attIdx + attLen))
      else
        (if attIdx - 1 > attLen then Inl TooLarge
         else Inr (attIdx - 1)))"

subsection \<open>The document\<close>

text \<open>
  A face vertex is the array \<^verbatim>\<open>[3]int\<close> of its position, texcoord and normal index
  (the constants \<^verbatim>\<open>P\<close>, \<^verbatim>\<open>T\<close>, \<^verbatim>\<open>N\<close> are 0, 1, 2); a face is
  \<^verbatim>\<open>[3][3]int\<close>.  Floating-point numbers are outside the embedding: the code is
  parametric in the type \<open>'f\<close> of coordinates and in the function \<open>pf\<close> that stands
  for \<^verbatim>\<open>strconv.ParseFloat(v, 32)\<close> followed by \<^verbatim>\<open>float32\<close>.
\<close>

type_synonym vertex = "int \<times> int \<times> int"

type_synonym face = "vertex \<times> vertex \<times> vertex"

record 'f Obj =
  Pos :: "'f list list"
  Tex :: "'f list list"
  Nor :: "'f list list"
  Face :: "face list"

definition emptyObj :: "'f Obj" where
  "emptyObj = \<lparr>Pos = [], Tex = [], Nor = [], Face = []\<rparr>"

definition faceVerts :: "face \<Rightarrow> vertex list" where
  "faceVerts f = (case f of (a, b, c) \<Rightarrow> [a, b, c])"

text \<open>Reading a slice or an array at a Go \<^verbatim>\<open>int\<close>: out of range panics.\<close>

definition index :: "'a list \<Rightarrow> int \<Rightarrow> 'a outcome" where
  "index xs i =
     (if 0 \<le> i \<and> i < int (length xs) then Returns (xs ! nat i) else Panics OutOfRange)"

definition VertPos :: "'f Obj \<Rightarrow> int \<Rightarrow> int \<Rightarrow> 'f list outcome" where
  "VertPos ob fc vx =
     (case index (Face ob) fc of
        Panics p \<Rightarrow> Panics p
      | Returns f \<Rightarrow>
          (case index (faceVerts f) vx of
             Panics p \<Rightarrow> Panics p
           | Returns v \<Rightarrow> index (Pos ob) (fst v)))"

definition VertTex :: "'f Obj \<Rightarrow> int \<Rightarrow> int \<Rightarrow> 'f list outcome" where
  "VertTex ob fc vx =
     (case index (Face ob) fc of
        Panics p \<Rightarrow> Panics p
      | Returns f \<Rightarrow>
          (case index (faceVerts f) vx of
             Panics p \<Rightarrow> Panics p
           | Returns v \<Rightarrow> index (Tex ob) (fst (snd v))))"

definition VertNor :: "'f Obj \<Rightarrow> int \<Rightarrow> int \<Rightarrow> 'f list outcome" where
  "VertNor ob fc vx =
     (case index (Face ob) fc of
        Panics p \<Rightarrow> Panics p
      | Returns f \<Rightarrow>
          (case index (faceVerts f) vx of
             Panics p \<Rightarrow> Panics p
           | Returns v \<Rightarrow> index (Nor ob) (snd (snd v))))"

subsection \<open>Parsing one face vertex\<close>

text \<open>
  The body of the loop over the vertices of a face, which \<^verbatim>\<open>addFace\<close> (inside
  \<^verbatim>\<open>Decode\<close>) and \<^verbatim>\<open>parseFace\<close> both contain: \<open>vert\<close> is one vertex
  split at its slashes, \<open>numAtt\<close> and \<open>skipTex\<close> come from the first vertex of
  the face.  The slots that are not parsed keep the zero value of the array.  The first
  vertex is never empty (\<^verbatim>\<open>Split\<close> returns at least one piece), so \<open>numAtt\<close> is
  at least 1 and the reads of \<open>vert\<close> are in range after the length test.
\<close>

definition parseVertex :: "nat \<Rightarrow> bool \<Rightarrow> nat \<Rightarrow> string list \<Rightarrow> error + vertex" where
  "parseVertex numAtt skipTex i vert =
     (if length vert \<noteq> numAtt then Inl (AttrCountMismatch i)
      else
        (case toIndex (vert ! 0) of
           Inl err \<Rightarrow> Inl (VertexErr i err)
         | Inr p \<Rightarrow>
             if numAtt = 2 then
               (case toIndex (vert ! 1) of
                  Inl err \<Rightarrow> Inl (VertexErr i err)
                | Inr t \<Rightarrow> Inr (p, t, 0))
             else if numAtt = 3 then
               (case (if skipTex then
                        (if length (vert ! 1) \<noteq> 0 then Inl (TexElision i) else Inr 0)
                      else
                        (case toIndex (vert ! 1) of
                           Inl err \<Rightarrow> Inl (VertexErr i err)
                         | Inr t \<Rightarrow> Inr t)) of
                  Inl err \<Rightarrow> Inl err
                | Inr t \<Rightarrow>
                    (case toIndex (vert ! 2) of
                       Inl err \<Rightarrow> Inl (VertexErr i err)
                     | Inr n \<Rightarrow> Inr (p, t, n)))
             else Inr (p, 0, 0)))"

subsection \<open>Decode\<close>

text \<open>
  The second loop of \<^verbatim>\<open>addFace\<close>: the three slots of vertex \<open>i\<close> are passed
  through \<^verbatim>\<open>adjustIndex\<close> with the current lengths of the three collections.
\<close>

definition adjustVertex :: "'f Obj \<Rightarrow> nat \<Rightarrow> vertex \<Rightarrow> error + vertex" where
  "adjustVertex ob i v =
     (case v of (p, t, n) \<Rightarrow>
        (case adjustIndex p (int (length (Pos ob))) of
           Inl err \<Rightarrow> Inl (VIndexErr i err)
         | Inr p' \<Rightarrow>
             (case adjustIndex t (int (length (Tex ob))) of
                Inl err \<Rightarrow> Inl (VtIndexErr i err)
              | Inr t' \<Rightarrow>
                  (case adjustIndex n (int (length (Nor ob))) of
                     Inl err \<Rightarrow> Inl (VnIndexErr i err)
                   | Inr n' \<Rightarrow> Inr (p', t', n')))))"

text \<open>
  \<^verbatim>\<open>addFace\<close>, the closure of \<^verbatim>\<open>Decode\<close> that works on the document \<open>ob\<close>.
  Its loops run over arrays of length 3 and are written out.  On an error the caller
  drops the document, so only the error is returned.
\<close>

definition addFace :: "'f Obj \<Rightarrow> string list \<Rightarrow> (error + 'f Obj) outcome" where
  "addFace ob flds =
     (case flds of
        [s0, s1, s2] \<Rightarrow>
          let v0 = Split s0; v1 = Split s1; v2 = Split s2 in
          if length v0 > 3 then Returns (Inl (TooManyAttrs 0))
          else if length v1 > 3 then Returns (Inl (TooManyAttrs 1))
          else if length v2 > 3 then Returns (Inl (TooManyAttrs 2))
          else
            let numAtt = length v0;
                skipTex = (numAtt = 3 \<and> length (v0 ! 1) = 0)
            in
              (case parseVertex numAtt skipTex 0 v0 of
                 Inl err \<Rightarrow> Returns (Inl err)
               | Inr r0 \<Rightarrow>
              (case parseVertex numAtt skipTex 1 v1 of
                 Inl err \<Rightarrow> Returns (Inl err)
               | Inr r1 \<Rightarrow>
              (case parseVertex numAtt skipTex 2 v2 of
                 Inl err \<Rightarrow> Returns (Inl err)
               | Inr r2 \<Rightarrow>
              (case adjustVertex ob 0 r0 of
                 Inl err \<Rightarrow> Returns (Inl err)
               | Inr a0 \<Rightarrow>
              (case adjustVertex ob 1 r1 of
                 Inl err \<Rightarrow> Returns (Inl err)
               | Inr a1 \<Rightarrow>
              (case adjustVertex ob 2 r2 of
                 Inl err \<Rightarrow> Returns (Inl err)
               | Inr a2 \<Rightarrow>
                   Returns (Inr (ob\<lparr>Face := Face ob @ [(a0, a1, a2)]\<rparr>))))))))
      | _ \<Rightarrow> Panics AddFaceArity)"

text \<open>
  The loop \<^verbatim>\<open>for i, v := range fields[1:]\<close> that fills a coordinate vector; a field
  that does not parse ends \<^verbatim>\<open>Decode\<close> with the line number and the parse error.
\<close>

fun parseFloats ::
  "(string \<Rightarrow> 'f option) \<Rightarrow> nat \<Rightarrow> nat \<Rightarrow> string list \<Rightarrow> 'f list \<Rightarrow> error + 'f list" where
  "parseFloats pf line i [] vec = Inr vec"
| "parseFloats pf line i (v # vs) vec =
     (case pf v of
        None \<Rightarrow> Inl (LineErr line (NumError v))
      | Some f \<Rightarrow> parseFloats pf line (Suc i) vs (vec[i := f]))"

text \<open>
  The body of the scanner loop after \<^verbatim>\<open>line++\<close>; \<open>line\<close> is the number of
  the line \<open>l\<close>, counted from 1.  The field counts tested before each call of
  \<open>parseFloats\<close> keep its index inside the vector.  The message that \<^verbatim>\<open>fmt.Printf\<close> writes for an unsupported element goes to the
  standard output and is not part of the returned values.
\<close>

definition decodeLine ::
  "(string \<Rightarrow> 'f::{zero,one} option) \<Rightarrow> nat \<Rightarrow> 'f Obj \<Rightarrow> string \<Rightarrow> (error + 'f Obj) outcome" where
  "decodeLine pf line ob l =
     (let flds = Fields l in
      if length flds = 0 then Returns (Inr ob)
      else
        (case toElem (hd flds) of
           comElem \<Rightarrow> Returns (Inr ob)
         | posElem \<Rightarrow>
             if length flds < 4 \<or> length flds > 5
             then Returns (Inl (LineErr line (FieldCount posElem)))
             else (case parseFloats pf line 0 (tl flds) [0, 0, 0, 1] of
                     Inl err \<Rightarrow> Returns (Inl err)
                   | Inr p \<Rightarrow> Returns (Inr (ob\<lparr>Pos := Pos ob @ [p]\<rparr>)))
         | texElem \<Rightarrow>
             if length flds < 3 \<or> length flds > 4
             then Returns (Inl (LineErr line (FieldCount texElem)))
             else (case parseFloats pf line 0 (tl flds) [0, 0, 0] of
                     Inl err \<Rightarrow> Returns (Inl err)
                   | Inr t \<Rightarrow> Returns (Inr (ob\<lparr>Tex := Tex ob @ [t]\<rparr>)))
         | norElem \<Rightarrow>
             if length flds \<noteq> 4
             then Returns (Inl (LineErr line (FieldCount norElem)))
             else (case parseFloats pf line 0 (tl flds) [0, 0, 0] of
                     Inl err \<Rightarrow> Returns (Inl err)
                   | Inr n \<Rightarrow> Returns (Inr (ob\<lparr>Nor := Nor ob @ [n]\<rparr>)))
         | facElem \<Rightarrow>
             if length flds \<noteq> 4
             then Returns (Inl (LineErr line (FieldCount facElem)))
             else (case addFace ob (tl flds) of
                     Panics p \<Rightarrow> Panics p
                   | Returns (Inl err) \<Rightarrow> Returns (Inl (LineErr line err))
                   | Returns (Inr ob') \<Rightarrow> Returns (Inr ob'))
         | errElem \<Rightarrow> Returns (Inr ob)))"

text \<open>
  The scanner loop.  \<open>line\<close> is the counter before the line is read; the lines are the
  tokens that \<^verbatim>\<open>bufio.Scanner\<close> with \<^verbatim>\<open>ScanLines\<close> delivers, without their line
  ends.
\<close>

fun scanLoop ::
  "(string \<Rightarrow> 'f::{zero,one} option) \<Rightarrow> nat \<Rightarrow> 'f Obj \<Rightarrow> string list \<Rightarrow> (error + 'f Obj) outcome" where
  "scanLoop pf line ob [] = Returns (Inr ob)"
| "scanLoop pf line ob (l # ls) =
     (case decodeLine pf (Suc line) ob l of
        Panics p \<Rightarrow> Panics p
      | Returns (Inl err) \<Rightarrow> Returns (Inl err)
      | Returns (Inr ob') \<Rightarrow> scanLoop pf (Suc line) ob' ls)"

text \<open>
  A reader is what the scanner makes of it: the lines it delivers and the value of
  \<^verbatim>\<open>scanner.Err()\<close> after the last of them.  \<^verbatim>\<open>Decode\<close> returns the pair
  \<^verbatim>\<open>(*Obj, error)\<close>; \<open>None\<close> is \<^verbatim>\<open>nil\<close>.
\<close>

type_synonym reader = "string list \<times> error option"

definition Decode ::
  "(string \<Rightarrow> 'f::{zero,one} option) \<Rightarrow> reader \<Rightarrow> ('f Obj option \<times> error option) outcome" where
  "Decode pf r =
     (case scanLoop pf 0 emptyObj (fst r) of
        Panics p \<Rightarrow> Panics p
      | Returns (Inl err) \<Rightarrow> Returns (None, Some err)
      | Returns (Inr ob) \<Rightarrow>
          (case snd r of
             Some err \<Rightarrow> Returns (None, Some err)
           | None \<Rightarrow> Returns (Some ob, None)))"

subsection \<open>Stream and parseFace\<close>

text \<open>
  The first loop of \<^verbatim>\<open>parseFace\<close>: every field is split at its slashes; a vertex with
  more than three pieces ends the call.
\<close>

fun splitAll :: "nat \<Rightarrow> string list \<Rightarrow> error + string list list" where
  "splitAll i [] = Inr []"
| "splitAll i (v # vs) =
     (let vertex = Split v in
      if length vertex > 3 then Inl (TooManyAttrs i)
      else (case splitAll (Suc i) vs of
              Inl err \<Rightarrow> Inl err
            | Inr vertices \<Rightarrow> Inr (vertex # vertices)))"

text \<open>
  The second loop of \<^verbatim>\<open>parseFace\<close>: each vertex is parsed into the local variable
  \<^verbatim>\<open>vertex\<close>, which goes out of scope at the end of the iteration.
\<close>

fun checkVerts :: "nat \<Rightarrow> bool \<Rightarrow> nat \<Rightarrow> string list list \<Rightarrow> error option" where
  "checkVerts numAtt skipTex i [] = None"
| "checkVerts numAtt skipTex i (v # vs) =
     (case parseVertex numAtt skipTex i v of
        Inl err \<Rightarrow> Some err
      | Inr vertex \<Rightarrow> checkVerts numAtt skipTex (Suc i) vs)"

text \<open>
  \<^verbatim>\<open>parseFace(fields, _face)\<close> returns its error together with the value that
  \<^verbatim>\<open>*_face\<close> holds afterwards.  \<open>face\<close> is the local copy made on entry and
  written back on success; \<^verbatim>\<open>vertices[0]\<close> panics when there is no field.
\<close>

definition parseFace :: "string list \<Rightarrow> vertex list \<Rightarrow> (error option \<times> vertex list) outcome" where
  "parseFace flds face_in =
     (let face = face_in in
      case splitAll 0 flds of
        Inl err \<Rightarrow> Returns (Some err, face_in)
      | Inr vertices \<Rightarrow>
          (case vertices of
             [] \<Rightarrow> Panics OutOfRange
           | v0 # _ \<Rightarrow>
               let numAtt = length v0;
                   skipTex = (numAtt = 3 \<and> length (v0 ! 1) = 0)
               in (case checkVerts numAtt skipTex 0 vertices of
                     Some err \<Rightarrow> Returns (Some err, face_in)
                   | None \<Rightarrow> Returns (None, face))))"

text \<open>
  The four sinks of \<^verbatim>\<open>Stream\<close> are local variables of function type that are
  declared and never assigned: they hold \<^verbatim>\<open>nil\<close>, and calling \<^verbatim>\<open>nil\<close> panics.
\<close>

definition emitPos :: "('f list \<Rightarrow> unit) option" where
  "emitPos = None"

definition emitNor :: "('f list \<Rightarrow> unit) option" where
  "emitNor = None"

definition emitTex :: "('f list \<Rightarrow> unit) option" where
  "emitTex = None"

definition emitFace :: "(vertex list \<Rightarrow> unit) option" where
  "emitFace = None"

definition callSink :: "('a \<Rightarrow> unit) option \<Rightarrow> 'a \<Rightarrow> unit outcome" where
  "callSink f x = (case f of None \<Rightarrow> Panics NilCall | Some g \<Rightarrow> Returns (g x))"

definition streamLine ::
  "(string \<Rightarrow> 'f::{zero,one} option) \<Rightarrow> nat \<Rightarrow> vertex list \<Rightarrow> string
     \<Rightarrow> (error option \<times> vertex list) outcome" where
  "streamLine pf line face l =
     (let flds = Fields l in
      if length flds = 0 then Returns (None, face)
      else
        (case toElem (hd flds) of
           comElem \<Rightarrow> Returns (None, face)
         | posElem \<Rightarrow>
             if length flds < 4 \<or> length flds > 5
             then Returns (Some (LineErr line (FieldCount posElem)), face)
             else (case parseFloats pf line 0 (tl flds) [0, 0, 0, 1] of
                     Inl err \<Rightarrow> Returns (Some err, face)
                   | Inr p \<Rightarrow>
                       (case callSink emitPos p of
                          Panics c \<Rightarrow> Panics c
                        | Returns u \<Rightarrow> Returns (None, face)))
         | texElem \<Rightarrow>
             if length flds < 3 \<or> length flds > 4
             then Returns (Some (LineErr line (FieldCount texElem)), face)
             else (case parseFloats pf line 0 (tl flds) [0, 0, 0] of
                     Inl err \<Rightarrow> Returns (Some err, face)
                   | Inr t \<Rightarrow>
                       (case callSink emitTex t of
                          Panics c \<Rightarrow> Panics c
                        | Returns u \<Rightarrow> Returns (None, face)))
         | norElem \<Rightarrow>
             if length flds \<noteq> 4
             then Returns (Some (LineErr line (FieldCount norElem)), face)
             else (case parseFloats pf line 0 (tl flds) [0, 0, 0] of
                     Inl err \<Rightarrow> Returns (Some err, face)
                   | Inr n \<Rightarrow>
                       (case callSink emitNor n of
                          Panics c \<Rightarrow> Panics c
                        | Returns u \<Rightarrow> Returns (None, face)))
         | facElem \<Rightarrow>
             if length flds \<noteq> 4
             then Returns (Some (LineErr line (FieldCount facElem)), face)
             else (case parseFace (tl flds) face of
                     Panics c \<Rightarrow> Panics c
                   | Returns (Some err, face') \<Rightarrow> Returns (Some (LineErr line err), face')
                   | Returns (None, face') \<Rightarrow>
                       (case callSink emitFace face' of
                          Panics c \<Rightarrow> Panics c
                        | Returns u \<Rightarrow> Returns (None, face')))
         | errElem \<Rightarrow> Returns (None, face)))"

fun streamLoop ::
  "(string \<Rightarrow> 'f::{zero,one} option) \<Rightarrow> nat \<Rightarrow> vertex list \<Rightarrow> string list
     \<Rightarrow> error option outcome" where
  "streamLoop pf line face [] = Returns None"
| "streamLoop pf line face (l # ls) =
     (case streamLine pf (Suc line) face l of
        Panics c \<Rightarrow> Panics c
      | Returns (Some err, face') \<Rightarrow> Returns (Some err)
      | Returns (None, face') \<Rightarrow> streamLoop pf (Suc line) face' ls)"

definition Stream :: "(string \<Rightarrow> 'f::{zero,one} option) \<Rightarrow> reader \<Rightarrow> error option outcome" where
  "Stream pf r =
     (case streamLoop pf 0 [] (fst r) of
        Panics c \<Rightarrow> Panics c
      | Returns (Some err) \<Rightarrow> Returns (Some err)
      | Returns None \<Rightarrow> Returns (snd r))"

section \<open>loadModel\<close>

text \<open>
  The part of \<^verbatim>\<open>model\<close> that \<^verbatim>\<open>loadModel\<close> fills; the buffer handles
  \<^verbatim>\<open>vao\<close>, \<^verbatim>\<open>posBuf\<close> and \<^verbatim>\<open>idxBuf\<close> are set later by \<^verbatim>\<open>initModel\<close>.
  \<^verbatim>\<open>idx\<close> is a slice of \<^verbatim>\<open>uint32\<close>, and \<^verbatim>\<open>uint32(len(m.pos))\<close> wraps.
\<close>

record 'f model =
  pos :: "'f list list"
  nor :: "'f list list"
  tex :: "'f list list"
  idx :: "32 word list"

definition emptyModel :: "'f model" where
  "emptyModel = \<lparr>pos = [], nor = [], tex = [], idx = []\<rparr>"

text \<open>
  The body of the inner loop for the vertex \<open>overt\<close>; the state is the model and the
  map \<^verbatim>\<open>knownVerts\<close>.
\<close>

definition dedupVertex ::
  "'f Obj \<Rightarrow> 'f model \<times> (vertex \<rightharpoonup> 32 word) \<Rightarrow> vertex
     \<Rightarrow> ('f model \<times> (vertex \<rightharpoonup> 32 word)) outcome" where
  "dedupVertex ob st overt =
     (case st of (m, knownVerts) \<Rightarrow>
        (case knownVerts overt of
           Some kv \<Rightarrow> Returns (m\<lparr>idx := idx m @ [kv]\<rparr>, knownVerts)
         | None \<Rightarrow>
             let i = (of_nat (length (pos m)) :: 32 word);
                 m1 = m\<lparr>idx := idx m @ [i]\<rparr>;
                 known1 = knownVerts(overt \<mapsto> i)
             in
               (case index (Pos ob) (fst overt) of
                  Panics c \<Rightarrow> Panics c
                | Returns vp \<Rightarrow>
                    let m2 = m1\<lparr>pos := pos m1 @ [vp]\<rparr> in
                    (case (if length (Tex ob) > 0 then
                             (case index (Tex ob) (fst (snd overt)) of
                                Panics c \<Rightarrow> Panics c
                              | Returns vt \<Rightarrow> Returns (m2\<lparr>tex := tex m2 @ [vt]\<rparr>))
                           else Returns m2) of
                       Panics c \<Rightarrow> Panics c
                     | Returns m3 \<Rightarrow>
                         (case (if length (Nor ob) > 0 then
                                  (case index (Nor ob) (snd (snd overt)) of
                                     Panics c \<Rightarrow> Panics c
                                   | Returns vn \<Rightarrow> Returns (m3\<lparr>nor := nor m3 @ [vn]\<rparr>))
                                else Returns m3) of
                            Panics c \<Rightarrow> Panics c
                          | Returns m4 \<Rightarrow> Returns (m4, known1))))))"

fun dedupVerts ::
  "'f Obj \<Rightarrow> 'f model \<times> (vertex \<rightharpoonup> 32 word) \<Rightarrow> vertex list
     \<Rightarrow> ('f model \<times> (vertex \<rightharpoonup> 32 word)) outcome" where
  "dedupVerts ob st [] = Returns st"
| "dedupVerts ob st (v # vs) =
     (case dedupVertex ob st v of
        Panics c \<Rightarrow> Panics c
      | Returns st' \<Rightarrow> dedupVerts ob st' vs)"

fun dedupFaces ::
  "'f Obj \<Rightarrow> 'f model \<times> (vertex \<rightharpoonup> 32 word) \<Rightarrow> face list
     \<Rightarrow> ('f model \<times> (vertex \<rightharpoonup> 32 word)) outcome" where
  "dedupFaces ob st [] = Returns st"
| "dedupFaces ob st (f # fs) =
     (case dedupVerts ob st (faceVerts f) of
        Panics c \<Rightarrow> Panics c
      | Returns st' \<Rightarrow> dedupFaces ob st' fs)"

text \<open>The loop of \<^verbatim>\<open>loadModel\<close> over a decoded document.\<close>

definition dedup :: "'f Obj \<Rightarrow> 'f model outcome" where
  "dedup ob =
     (case dedupFaces ob (emptyModel, Map.empty) (Face ob) of
        Panics c \<Rightarrow> Panics c
      | Returns st \<Rightarrow> Returns (fst st))"

text \<open>
  \<^verbatim>\<open>loadModel\<close>; \<open>file\<close> is what \<^verbatim>\<open>os.Open\<close> returns, an error or the reader.
\<close>

definition loadModel ::
  "(string \<Rightarrow> 'f::{zero,one} option) \<Rightarrow> error + reader \<Rightarrow> ('f model option \<times> error option) outcome" where
  "loadModel pf file =
     (case file of
        Inl err \<Rightarrow> Returns (None, Some err)
      | Inr f \<Rightarrow>
          (case Decode pf f of
             Panics c \<Rightarrow> Panics c
           | Returns (d, Some err) \<Rightarrow> Returns (None, Some err)
           | Returns (None, None) \<Rightarrow> Panics NilDeref
           | Returns (Some ob, None) \<Rightarrow>
               (case dedup ob of
                  Panics c \<Rightarrow> Panics c
                | Returns m \<Rightarrow> Returns (Some m, None))))"

section \<open>Auxiliary notions\<close>

text \<open>
  The code has a single error type.  The classes below are those of the specification's
  error taxonomy, assigned by the place that creates the error: a field count, a vertex
  with too many pieces, an inconsistent arity or elision and a field that is not a number
  are syntax errors; a zero index and an index that does not resolve are index errors; a
  failure of the reader is a stream error.  A wrapper has the class of what it wraps.
\<close>

datatype kind = SyntaxError | IndexError | StreamError

fun kindOf :: "error \<Rightarrow> kind" where
  "kindOf (NumError s) = SyntaxError"
| "kindOf ZeroIndex = IndexError"
| "kindOf (TooNegative i) = IndexError"
| "kindOf TooLarge = IndexError"
| "kindOf (TooManyAttrs i) = SyntaxError"
| "kindOf (AttrCountMismatch i) = SyntaxError"
| "kindOf (TexElision i) = SyntaxError"
| "kindOf (VertexErr i e) = kindOf e"
| "kindOf (VIndexErr i e) = kindOf e"
| "kindOf (VtIndexErr i e) = kindOf e"
| "kindOf (VnIndexErr i e) = kindOf e"
| "kindOf (FieldCount el) = SyntaxError"
| "kindOf (LineErr n e) = kindOf e"
| "kindOf ReadError = StreamError"

text \<open>
  An instance of the parameter \<open>pf\<close> for the sample inputs: it agrees with
  \<^verbatim>\<open>strconv.ParseFloat\<close> on the numerals \<^verbatim>\<open>0\<close> and \<^verbatim>\<open>1\<close>, the only ones the
  samples contain, with coordinates in \<^typ>\<open>int\<close>.
\<close>

definition sampleFloat :: "string \<Rightarrow> int option" where
  "sampleFloat s = (if s = ''0'' then Some 0 else if s = ''1'' then Some 1 else None)"

text \<open>
  A line is an element line when its first field is \<^verbatim>\<open>v\<close>, \<^verbatim>\<open>vt\<close>, \<^verbatim>\<open>vn\<close>
  or \<^verbatim>\<open>f\<close>: the lines for which \<^verbatim>\<open>Stream\<close> has something to emit.
\<close>

definition isElemLine :: "string \<Rightarrow> bool" where
  "isElemLine l =
     (case Fields l of
        [] \<Rightarrow> False
      | f # _ \<Rightarrow>
          toElem f = posElem \<or> toElem f = texElem \<or> toElem f = norElem \<or> toElem f = facElem)"

text \<open>
  The order in which \<^verbatim>\<open>addFace\<close> reads a face line, for the statements about the
  first defect it meets.  A sub-field is clean when reading it raises nothing: the elided
  texcoord of a face whose first vertex elides it, otherwise a 32-bit integer other than 0.
  A vertex is clean when it has the number of sub-fields of the first vertex and all of
  them are clean.  \<open>zeroAt\<close> says that the first defect of a vertex is a sub-field that
  reads 0, and \<open>zeroFirst flds i\<close> that the first defect of the whole face line is such
  a sub-field of vertex \<open>i\<close>: the line has three vertices, none has more than three
  sub-fields (this is tested for all of them before any index is read), and the vertices
  before \<open>i\<close> are clean.
\<close>

definition cleanSlot :: "bool \<Rightarrow> string list \<Rightarrow> nat \<Rightarrow> bool" where
  "cleanSlot skipTex vert m =
     (if m = 1 \<and> skipTex then vert ! 1 = []
      else (case ParseInt (vert ! m) of Inl err \<Rightarrow> False | Inr val \<Rightarrow> val \<noteq> 0))"

definition cleanVertex :: "nat \<Rightarrow> bool \<Rightarrow> string list \<Rightarrow> bool" where
  "cleanVertex numAtt skipTex vert =
     (length vert = numAtt \<and> (\<forall>m<numAtt. cleanSlot skipTex vert m))"

definition zeroAt :: "nat \<Rightarrow> bool \<Rightarrow> string list \<Rightarrow> bool" where
  "zeroAt numAtt skipTex vert =
     (length vert = numAtt \<and>
      (\<exists>k<numAtt. (\<forall>m<k. cleanSlot skipTex vert m) \<and> \<not> (k = 1 \<and> skipTex) \<and>
                  ParseInt (vert ! k) = Inr 0))"

definition zeroFirst :: "string list \<Rightarrow> nat \<Rightarrow> bool" where
  "zeroFirst flds i =
     (length flds = 3 \<and> i < 3 \<and> (\<forall>s \<in> set flds. length (Split s) \<le> 3) \<and>
      (let numAtt = length (Split (flds ! 0));
           skipTex = (numAtt = 3 \<and> Split (flds ! 0) ! 1 = [])
       in (\<forall>j<i. cleanVertex numAtt skipTex (Split (flds ! j))) \<and>
          zeroAt numAtt skipTex (Split (flds ! i))))"

text \<open>
  The two conditions on the vertex fields of a face line that the statements below are
  about: some sub-field reads as the integer 0; some vertex differs from the first one in
  its number of sub-fields or, with three sub-fields, in the elision of the texcoord.
\<close>

definition hasZeroField :: "string list \<Rightarrow> bool" where
  "hasZeroField flds = (\<exists>s \<in> set flds. \<exists>x \<in> set (Split s). ParseInt x = Inr 0)"

definition faceMismatch :: "string list \<Rightarrow> bool" where
  "faceMismatch flds =
     ((\<exists>s \<in> set flds. length (Split s) \<noteq> length (Split (flds ! 0))) \<or>
      (length (Split (flds ! 0)) = 3 \<and>
       (\<exists>s \<in> set flds. length (Split s) = 3 \<and>
                        (Split s ! 1 = []) \<noteq> (Split (flds ! 0) ! 1 = []))))"

section \<open>Properties\<close>

subsection \<open>Evaluation of the index parser on sample fields\<close>

lemma toIndex_samples:
  "toIndex ''-1'' = Inr (- 1)" "toIndex ''-2'' = Inr (- 2)" "toIndex ''-3'' = Inr (- 3)"
  "toIndex ''1'' = Inr 1" "toIndex ''2'' = Inr 2" "toIndex ''3'' = Inr 3"
  "toIndex ''0'' = Inl ZeroIndex" "toIndex [] = Inl (NumError [])"
  by (simp_all add: toIndex_def ParseInt_def digitVal_def)

subsection \<open>Relative and absolute indices\<close>

text \<open>
  C7.  For every collection size \<open>n\<close> and every \<open>k\<close> from 1 to \<open>n\<close>,
  \<^verbatim>\<open>adjustIndex\<close> resolves the relative index \<open>- k\<close> to \<open>n - k\<close>, and the absolute
  index \<open>n - k + 1\<close> to the same value.  With three positions declared, the face
  \<^verbatim>\<open>f -1 -2 -3\<close> is stored with the same index triples as \<^verbatim>\<open>f 3 2 1\<close>.
\<close>

theorem relative_index_resolution:
  "(\<forall>n k. 1 \<le> k \<and> k \<le> n \<longrightarrow>
      adjustIndex (- k) n = Inr (n - k) \<and> adjustIndex (n - k + 1) n = Inr (n - k)) \<and>
   (\<forall>ob :: 'f Obj. length (Pos ob) = 3 \<longrightarrow>
      addFace ob [''-1'', ''-2'', ''-3''] = addFace ob [''3'', ''2'', ''1''] \<and>
      addFace ob [''3'', ''2'', ''1''] =
        Returns (Inr (ob\<lparr>Face := Face ob @ [((2, - 1, - 1), (1, - 1, - 1), (0, - 1, - 1))]\<rparr>)))"
proof (intro conjI allI impI)
  fix n k :: int
  assume "1 \<le> k \<and> k \<le> n"
  then show "adjustIndex (- k) n = Inr (n - k)" "adjustIndex (n - k + 1) n = Inr (n - k)"
    by (simp_all add: adjustIndex_def)
next
  fix ob :: "'f Obj"
  assume len: "length (Pos ob) = 3"
  have abs: "addFace ob [''3'', ''2'', ''1''] =
        Returns (Inr (ob\<lparr>Face := Face ob @ [((2, - 1, - 1), (1, - 1, - 1), (0, - 1, - 1))]\<rparr>))"
    using len
    by (simp add: addFace_def parseVertex_def adjustVertex_def toIndex_samples adjustIndex_def)
  have rel: "addFace ob [''-1'', ''-2'', ''-3''] =
        Returns (Inr (ob\<lparr>Face := Face ob @ [((2, - 1, - 1), (1, - 1, - 1), (0, - 1, - 1))]\<rparr>))"
    using len
    by (simp add: addFace_def parseVertex_def adjustVertex_def toIndex_samples adjustIndex_def)
  show "addFace ob [''-1'', ''-2'', ''-3''] = addFace ob [''3'', ''2'', ''1'']"
    using abs rel by simp
  show "addFace ob [''3'', ''2'', ''1''] =
        Returns (Inr (ob\<lparr>Face := Face ob @ [((2, - 1, - 1), (1, - 1, - 1), (0, - 1, - 1))]\<rparr>))"
    by (rule abs)
qed

theorem relative_index_resolution_witness:
  "adjustIndex (- 1) 3 = Inr 2 \<and> adjustIndex 3 3 = Inr 2 \<and>
   addFace \<lparr>Pos = [[0, 0, 0, 1], [1, 0, 0, 1], [0, 1, 0, 1 :: int]], Tex = [], Nor = [], Face = []\<rparr>
       [''-1'', ''-2'', ''-3''] =
     Returns (Inr \<lparr>Pos = [[0, 0, 0, 1], [1, 0, 0, 1], [0, 1, 0, 1]], Tex = [], Nor = [],
       Face = [((2, - 1, - 1), (1, - 1, - 1), (0, - 1, - 1))]\<rparr>)"
  using relative_index_resolution[THEN conjunct1, rule_format, of 1 3]
        relative_index_resolution[THEN conjunct2, rule_format,
          of "\<lparr>Pos = [[0, 0, 0, 1], [1, 0, 0, 1], [0, 1, 0, 1 :: int]], Tex = [], Nor = [], Face = []\<rparr>"]
  by simp

subsection \<open>Index resolution in decoded documents\<close>

text \<open>
  C1.  Every index of a decoded face should lie in \<open>[0, n)\<close> for the length \<open>n\<close> of
  its collection, and an index that resolves outside should fail the parse.  The test
  \<^verbatim>\<open>res > attLen\<close> of \<^verbatim>\<open>adjustIndex\<close> lets \<open>res = attLen\<close> through: with one
  position declared, \<^verbatim>\<open>f 2 2 2\<close> decodes to a face whose position index is 1.
\<close>

theorem Decode_accepts_index_past_end:
  "Decode sampleFloat ([''v 0 0 0'', ''f 2 2 2''], None) =
     Returns (Some \<lparr>Pos = [[0, 0, 0, 1]], Tex = [], Nor = [],
                     Face = [((1, - 1, - 1), (1, - 1, - 1), (1, - 1, - 1))]\<rparr>, None)"
  by code_simp

text \<open>
  C2.  A vertex that omits its texcoord or normal should store 0 in that slot.  The slot
  holds 0 after parsing, but \<^verbatim>\<open>addFace\<close> passes all three slots of every vertex
  through \<^verbatim>\<open>adjustIndex\<close>, which turns 0 into \<open>- 1\<close> for a collection of any size:
  the sample of three positions and \<^verbatim>\<open>f 1 2 3\<close> is stored with \<open>- 1\<close> in the texcoord
  and normal slots.
\<close>

theorem Decode_absent_slot_minus_one:
  "Decode sampleFloat ([''v 0 0 0'', ''v 1 0 0'', ''v 0 1 0'', ''f 1 2 3''], None) =
     Returns (Some \<lparr>Pos = [[0, 0, 0, 1], [1, 0, 0, 1], [0, 1, 0, 1]], Tex = [], Nor = [],
                     Face = [((0, - 1, - 1), (1, - 1, - 1), (2, - 1, - 1))]\<rparr>, None) \<and>
   adjustIndex 0 (int n) = Inr (- 1)"
proof
  show "Decode sampleFloat ([''v 0 0 0'', ''v 1 0 0'', ''v 0 1 0'', ''f 1 2 3''], None) =
     Returns (Some \<lparr>Pos = [[0, 0, 0, 1], [1, 0, 0, 1], [0, 1, 0, 1]], Tex = [], Nor = [],
                     Face = [((0, - 1, - 1), (1, - 1, - 1), (2, - 1, - 1))]\<rparr>, None)"
    by code_simp
  show "adjustIndex 0 (int n) = Inr (- 1)"
    by (simp add: adjustIndex_def)
qed

subsection \<open>Deduplication of decoded documents\<close>

text \<open>
  C3.  The deduplication loop should produce a mesh for every decoded document.  The
  single line \<^verbatim>\<open>f 1 1 1\<close> decodes (no position is declared, and index 0 passes the
  test of \<^verbatim>\<open>adjustIndex\<close>), and \<^verbatim>\<open>loadModel\<close> then panics reading
  \<^verbatim>\<open>o.Pos[0]\<close>: no mesh is produced.
\<close>

theorem loadModel_panics_on_decoded_face:
  "Decode sampleFloat ([''f 1 1 1''], None) =
     Returns (Some \<lparr>Pos = [], Tex = [], Nor = [],
                     Face = [((0, - 1, - 1), (0, - 1, - 1), (0, - 1, - 1))]\<rparr>, None)
   \<and> loadModel sampleFloat (Inr ([''f 1 1 1''], None)) = Panics OutOfRange"
  by code_simp

text \<open>
  C9.  The reads of \<^verbatim>\<open>o.Tex\<close> in \<^verbatim>\<open>loadModel\<close> and \<^verbatim>\<open>VertTex\<close> should be in
  bounds for a decoded document whose texcoord collection is not empty, also for a face
  that omits its texcoords.  With a position and a texcoord declared, \<^verbatim>\<open>f 1 1 1\<close>
  decodes with texcoord index \<open>- 1\<close>; \<^verbatim>\<open>VertTex(0, 0)\<close> and \<^verbatim>\<open>loadModel\<close> panic.
\<close>

theorem texcoord_read_out_of_range:
  "Decode sampleFloat ([''v 0 0 0'', ''vt 0 0'', ''f 1 1 1''], None) =
     Returns (Some \<lparr>Pos = [[0, 0, 0, 1]], Tex = [[0, 0, 0]], Nor = [],
                     Face = [((0, - 1, - 1), (0, - 1, - 1), (0, - 1, - 1))]\<rparr>, None)
   \<and> VertTex \<lparr>Pos = [[0, 0, 0, 1 :: int]], Tex = [[0, 0, 0]], Nor = [],
               Face = [((0, - 1, - 1), (0, - 1, - 1), (0, - 1, - 1))]\<rparr> 0 0 = Panics OutOfRange
   \<and> loadModel sampleFloat (Inr ([''v 0 0 0'', ''vt 0 0'', ''f 1 1 1''], None)) =
       Panics OutOfRange"
  by code_simp

subsection \<open>The errors of a line\<close>

lemma Split_nonempty: "Split s \<noteq> []"
  by (induction s) (auto split: list.splits)

lemma toIndex_error: "toIndex x = Inl e \<Longrightarrow> e = ZeroIndex \<or> e = NumError x"
  by (auto simp: toIndex_def ParseInt_def Let_def split: sum.splits list.splits option.splits if_splits)

lemma toIndex_error_kind: "toIndex x = Inl e \<Longrightarrow> kindOf e = SyntaxError \<or> kindOf e = IndexError"
  by (drule toIndex_error) auto

lemma parseVertex_error_kind:
  "parseVertex numAtt skipTex i vert = Inl e \<Longrightarrow> kindOf e = SyntaxError \<or> kindOf e = IndexError"
  by (auto simp: parseVertex_def split: if_splits sum.splits dest: toIndex_error)

lemma adjustIndex_error_kind: "adjustIndex a n = Inl e \<Longrightarrow> kindOf e = IndexError"
  by (auto simp: adjustIndex_def split: if_splits)

lemma adjustVertex_error_kind: "adjustVertex ob i v = Inl e \<Longrightarrow> kindOf e = IndexError"
  by (auto simp: adjustVertex_def split: prod.splits sum.splits dest: adjustIndex_error_kind)

lemma addFace_three: "\<exists>r. addFace ob [s0, s1, s2] = Returns r"
  by (simp add: addFace_def Let_def split: sum.splits)

lemma addFace_error_kind:
  "addFace ob flds = Returns (Inl e) \<Longrightarrow> kindOf e = SyntaxError \<or> kindOf e = IndexError"
  by (auto simp: addFace_def Let_def split: list.splits if_splits sum.splits
           dest: parseVertex_error_kind adjustVertex_error_kind)


lemma parseFloats_error:
  "parseFloats pf line i vs vec = Inl e \<Longrightarrow> \<exists>v. e = LineErr line (NumError v)"
  by (induction vs arbitrary: i vec) (auto split: option.splits)

lemma decodeLine_returns: "\<exists>r. decodeLine pf n ob l = Returns r"
proof (cases "length (Fields l) = 4")
  case True
  then obtain a s0 s1 s2 where "Fields l = [a, s0, s1, s2]"
    by (auto simp: length_Suc_conv numeral_eq_Suc)
  then show ?thesis
    using addFace_three[of ob s0 s1 s2]
    by (auto simp: decodeLine_def Let_def split: elem.splits sum.splits)
next
  case False
  then show ?thesis
    by (auto simp: decodeLine_def Let_def split: elem.splits sum.splits)
qed

lemma decodeLine_error:
  assumes "decodeLine pf n ob l = Returns (Inl e)"
  shows "\<exists>e'. e = LineErr n e' \<and> (kindOf e' = SyntaxError \<or> kindOf e' = IndexError)"
  using assms
  by (auto simp: decodeLine_def Let_def
           split: if_splits elem.splits sum.splits outcome.splits
           dest: parseFloats_error addFace_error_kind)

lemma scanLoop_returns: "\<exists>r. scanLoop pf n ob ls = Returns r"
proof (induction ls arbitrary: n ob)
  case Nil
  show ?case by simp
next
  case (Cons l ls)
  obtain r where r: "decodeLine pf (Suc n) ob l = Returns r"
    using decodeLine_returns by blast
  show ?case
    using r Cons.IH by (cases r) auto
qed

lemma scanLoop_append:
  "scanLoop pf n ob pre = Returns (Inr ob') \<Longrightarrow>
   scanLoop pf n ob (pre @ rest) = scanLoop pf (n + length pre) ob' rest"
proof (induction pre arbitrary: n ob)
  case Nil
  then show ?case by simp
next
  case (Cons l pre)
  from Cons.prems obtain ob1 where
    l: "decodeLine pf (Suc n) ob l = Returns (Inr ob1)" and
    rest: "scanLoop pf (Suc n) ob1 pre = Returns (Inr ob')"
    by (auto split: outcome.splits sum.splits)
  show ?case
    using l Cons.IH[OF rest] by simp
qed

lemma Decode_at_line:
  assumes "scanLoop pf 0 emptyObj pre = Returns (Inr ob)"
    and "decodeLine pf (Suc (length pre)) ob l = Returns (Inl e)"
  shows "Decode pf (pre @ l # post, serr) = Returns (None, Some e)"
  using scanLoop_append[OF assms(1), of "l # post"] assms(2)
  by (simp add: Decode_def)

subsection \<open>Errors abort the decode\<close>

text \<open>
  C5.  \<^verbatim>\<open>Decode\<close> always returns, and it returns either a document and no error or
  an error and no document.  When the lines before \<open>l\<close> are accepted and the line
  \<open>l\<close> produces an error, \<^verbatim>\<open>Decode\<close> returns that error and no document, whatever
  follows; the error carries the number of the line, counted from 1, and is a syntax
  error or an index error.
\<close>

theorem Decode_fail_fast:
  "(\<exists>d e. Decode pf r = Returns (d, e) \<and> (d = None) = (e \<noteq> None)) \<and>
   (scanLoop pf 0 emptyObj pre = Returns (Inr ob) \<and>
    decodeLine pf (Suc (length pre)) ob l = Returns (Inl err) \<longrightarrow>
      Decode pf (pre @ l # post, serr) = Returns (None, Some err) \<and>
      (\<exists>e'. err = LineErr (Suc (length pre)) e' \<and>
            (kindOf e' = SyntaxError \<or> kindOf e' = IndexError)))"
proof (intro conjI impI)
  obtain x where x: "scanLoop pf 0 emptyObj (fst r) = Returns x"
    using scanLoop_returns by blast
  show "\<exists>d e. Decode pf r = Returns (d, e) \<and> (d = None) = (e \<noteq> None)"
    using x by (cases x; cases "snd r") (auto simp: Decode_def)
next
  assume h: "scanLoop pf 0 emptyObj pre = Returns (Inr ob) \<and>
    decodeLine pf (Suc (length pre)) ob l = Returns (Inl err)"
  then show "Decode pf (pre @ l # post, serr) = Returns (None, Some err)"
    using Decode_at_line by blast
  from h show "\<exists>e'. err = LineErr (Suc (length pre)) e' \<and>
            (kindOf e' = SyntaxError \<or> kindOf e' = IndexError)"
    using decodeLine_error by blast
qed

theorem Decode_fail_fast_witness:
  "Decode sampleFloat ([''v 0 0 0'', ''f 0 1 2'', ''v 1 1 1''], None) =
     Returns (None, Some (LineErr 2 (VertexErr 0 ZeroIndex)))"
proof -
  have pre: "scanLoop sampleFloat 0 emptyObj [''v 0 0 0''] =
      Returns (Inr \<lparr>Pos = [[0, 0, 0, 1]], Tex = [], Nor = [], Face = []\<rparr>)"
    by code_simp
  have ln: "decodeLine sampleFloat (Suc (length [''v 0 0 0'']))
      \<lparr>Pos = [[0, 0, 0, 1]], Tex = [], Nor = [], Face = []\<rparr> ''f 0 1 2'' =
      Returns (Inl (LineErr 2 (VertexErr 0 ZeroIndex)))"
    by code_simp
  show ?thesis
    using Decode_fail_fast[THEN conjunct2, rule_format, OF conjI, OF pre ln, of "[''v 1 1 1'']" None]
    by simp
qed

subsection \<open>The face parser of the callback mode\<close>

text \<open>
  C10.  When \<^verbatim>\<open>parseFace\<close> returns without error, the value it writes back to
  \<^verbatim>\<open>*_face\<close> is the value found there on entry: the indices it parses are checked and
  dropped.  It takes no collection length, so nothing is resolved: \<^verbatim>\<open>7 -8 9\<close> is
  accepted as it is, and a malformed face leaves \<^verbatim>\<open>*_face\<close> untouched as well.
\<close>

theorem parseFace_writes_back_entry_value:
  "(parseFace flds face = Returns (None, face') \<longrightarrow> face' = face) \<and>
   parseFace [''7'', ''-8'', ''9/''] face = Returns (Some (AttrCountMismatch 2), face) \<and>
   parseFace [''7'', ''-8'', ''9''] face = Returns (None, face)"
proof (intro conjI impI)
  assume "parseFace flds face = Returns (None, face')"
  then show "face' = face"
    by (auto simp: parseFace_def Let_def split: sum.splits list.splits option.splits)
next
  show "parseFace [''7'', ''-8'', ''9/''] face = Returns (Some (AttrCountMismatch 2), face)"
    by (simp add: parseFace_def parseVertex_def toIndex_def ParseInt_def digitVal_def)
next
  show "parseFace [''7'', ''-8'', ''9''] face = Returns (None, face)"
    by (simp add: parseFace_def parseVertex_def toIndex_def ParseInt_def digitVal_def)
qed

theorem parseFace_writes_back_entry_value_witness:
  "parseFace [''1/1/1'', ''2/2/2'', ''3/3/3''] [(5, 5, 5)] = Returns (None, [(5, 5, 5)])"
proof -
  have r: "parseFace [''1/1/1'', ''2/2/2'', ''3/3/3''] [(5, 5, 5)] =
      Returns (None, snd (None :: error option, [(5, 5, 5) :: vertex]))"
    by code_simp
  show ?thesis
    using parseFace_writes_back_entry_value[THEN conjunct1, rule_format, OF r] r
    by simp
qed

subsection \<open>Faces that addFace rejects\<close>

lemma ParseInt_error: "ParseInt x = Inl e \<Longrightarrow> e = NumError x"
  by (auto simp: ParseInt_def Let_def split: list.splits option.splits if_splits)

lemma toIndex_Inr_iff: "toIndex x = Inr v \<longleftrightarrow> ParseInt x = Inr v \<and> v \<noteq> 0"
  by (auto simp: toIndex_def split: sum.splits)

lemma toIndex_zero_iff: "toIndex x = Inl ZeroIndex \<longleftrightarrow> ParseInt x = Inr 0"
  by (auto simp: toIndex_def split: sum.splits dest: ParseInt_error)

lemma cleanSlot_toIndex:
  "\<not> (m = 1 \<and> skipTex) \<Longrightarrow> cleanSlot skipTex vert m \<longleftrightarrow> (\<exists>v. toIndex (vert ! m) = Inr v)"
  by (auto simp: cleanSlot_def toIndex_Inr_iff split: sum.splits)

lemma parseVertex_clean_iff:
  assumes "0 < numAtt" and "numAtt \<le> 3" and "skipTex \<longrightarrow> numAtt = 3"
  shows "(\<exists>r. parseVertex numAtt skipTex i vert = Inr r) \<longleftrightarrow> cleanVertex numAtt skipTex vert"
proof (cases "length vert = numAtt")
  case False
  then show ?thesis
    by (simp add: parseVertex_def cleanVertex_def)
next
  case len: True
  consider "numAtt = 1" | "numAtt = 2" | "numAtt = 3"
    using assms(1,2) by linarith
  then show ?thesis
  proof cases
    case 1
    then obtain a where "vert = [a]"
      using len by (auto simp: length_Suc_conv)
    then show ?thesis
      using 1 assms(3)
      by (auto simp: parseVertex_def cleanVertex_def cleanSlot_def toIndex_def
               split: sum.splits if_splits)
  next
    case 2
    then obtain a b where "vert = [a, b]"
      using len by (auto simp: length_Suc_conv numeral_2_eq_2)
    then show ?thesis
      using 2 assms(3)
      by (auto simp: parseVertex_def cleanVertex_def cleanSlot_def toIndex_def
                     numeral_2_eq_2 All_less_Suc
               split: sum.splits if_splits)
  next
    case 3
    then obtain a b c where "vert = [a, b, c]"
      using len by (auto simp: length_Suc_conv numeral_3_eq_3)
    then show ?thesis
      using 3
      by (auto simp: parseVertex_def cleanVertex_def cleanSlot_def toIndex_def
                     numeral_3_eq_3 All_less_Suc
               split: sum.splits if_splits)
  qed
qed


lemma parseVertex_zero_iff:
  assumes "0 < numAtt" and "numAtt \<le> 3" and "skipTex \<longrightarrow> numAtt = 3"
  shows "parseVertex numAtt skipTex i vert = Inl (VertexErr i' ZeroIndex) \<longleftrightarrow>
         i' = i \<and> zeroAt numAtt skipTex vert"
proof (cases "length vert = numAtt")
  case False
  then show ?thesis
    by (simp add: parseVertex_def zeroAt_def)
next
  case len: True
  consider "numAtt = 1" | "numAtt = 2" | "numAtt = 3"
    using assms(1,2) by linarith
  then show ?thesis
  proof cases
    case 1
    then obtain a where "vert = [a]"
      using len by (auto simp: length_Suc_conv)
    then show ?thesis
      using 1 assms(3)
      by (auto simp: parseVertex_def zeroAt_def cleanSlot_def toIndex_def
               split: sum.splits if_splits dest: ParseInt_error)
  next
    case 2
    then obtain a b where "vert = [a, b]"
      using len by (auto simp: length_Suc_conv numeral_2_eq_2)
    then show ?thesis
      using 2 assms(3)
      by (auto simp: parseVertex_def zeroAt_def cleanSlot_def toIndex_def
                     numeral_2_eq_2 All_less_Suc Ex_less_Suc
               split: sum.splits if_splits dest: ParseInt_error)
  next
    case 3
    then obtain a b c where "vert = [a, b, c]"
      using len by (auto simp: length_Suc_conv numeral_3_eq_3)
    then show ?thesis
      using 3
      by (auto simp: parseVertex_def zeroAt_def cleanSlot_def toIndex_def
                     numeral_3_eq_3 All_less_Suc Ex_less_Suc
               split: sum.splits if_splits dest: ParseInt_error)
  qed
qed


lemma parseVertex_accepts:
  assumes "parseVertex numAtt skipTex i vert = Inr r" and "0 < numAtt" and "numAtt \<le> 3"
  shows "length vert = numAtt \<and> (\<forall>x \<in> set vert. toIndex x \<noteq> Inl ZeroIndex) \<and>
         (numAtt = 3 \<longrightarrow> (vert ! 1 = []) = skipTex)"
proof -
  have len: "length vert = numAtt"
    using assms(1) by (auto simp: parseVertex_def split: if_splits)
  consider "numAtt = 1" | "numAtt = 2" | "numAtt = 3"
    using assms(2,3) by linarith
  then show ?thesis
  proof cases
    case 1
    then obtain a where "vert = [a]"
      using len by (auto simp: length_Suc_conv)
    then show ?thesis
      using assms(1) 1 by (auto simp: parseVertex_def split: sum.splits)
  next
    case 2
    then obtain a b where "vert = [a, b]"
      using len by (auto simp: length_Suc_conv numeral_eq_Suc)
    then show ?thesis
      using assms(1) 2 by (auto simp: parseVertex_def split: sum.splits)
  next
    case 3
    then obtain a b c where "vert = [a, b, c]"
      using len by (auto simp: length_Suc_conv numeral_eq_Suc)
    then show ?thesis
      using assms(1) 3
      by (auto simp: parseVertex_def toIndex_samples split: sum.splits if_splits)
  qed
qed

lemma parseVertex_error_shape:
  "parseVertex numAtt skipTex i vert = Inl e \<Longrightarrow>
     e = VertexErr i ZeroIndex \<or> kindOf e = SyntaxError"
  by (auto simp: parseVertex_def split: if_splits sum.splits dest: toIndex_error)


lemma addFace_rejects:
  assumes bad: "\<not> (\<forall>s \<in> {s0, s1, s2}.
             length (Split s) = length (Split s0) \<and>
             (\<forall>x \<in> set (Split s). toIndex x \<noteq> Inl ZeroIndex) \<and>
             (length (Split s0) = 3 \<longrightarrow> (Split s ! 1 = []) = (Split s0 ! 1 = [])))"
  shows "\<exists>e. addFace ob [s0, s1, s2] = Returns (Inl e) \<and>
             ((\<exists>i. e = VertexErr i ZeroIndex) \<or> kindOf e = SyntaxError)"
proof (cases "length (Split s0) > 3 \<or> length (Split s1) > 3 \<or> length (Split s2) > 3")
  case True
  then show ?thesis
    by (auto simp: addFace_def Let_def)
next
  case False
  define numAtt where "numAtt = length (Split s0)"
  define skipTex where "skipTex = (numAtt = 3 \<and> length (Split s0 ! 1) = 0)"
  have pos: "0 < numAtt" and le: "numAtt \<le> 3"
    using False Split_nonempty[of s0] by (auto simp: numAtt_def)
  have sk: "numAtt = 3 \<Longrightarrow> skipTex = (Split s0 ! 1 = [])"
    by (simp add: skipTex_def)
  have unfold: "addFace ob [s0, s1, s2] =
      (case parseVertex numAtt skipTex 0 (Split s0) of
         Inl err \<Rightarrow> Returns (Inl err)
       | Inr r0 \<Rightarrow>
      (case parseVertex numAtt skipTex 1 (Split s1) of
         Inl err \<Rightarrow> Returns (Inl err)
       | Inr r1 \<Rightarrow>
      (case parseVertex numAtt skipTex 2 (Split s2) of
         Inl err \<Rightarrow> Returns (Inl err)
       | Inr r2 \<Rightarrow>
      (case adjustVertex ob 0 r0 of
         Inl err \<Rightarrow> Returns (Inl err)
       | Inr a0 \<Rightarrow>
      (case adjustVertex ob 1 r1 of
         Inl err \<Rightarrow> Returns (Inl err)
       | Inr a1 \<Rightarrow>
      (case adjustVertex ob 2 r2 of
         Inl err \<Rightarrow> Returns (Inl err)
       | Inr a2 \<Rightarrow>
           Returns (Inr (ob\<lparr>Face := Face ob @ [(a0, a1, a2)]\<rparr>))))))))"
    unfolding numAtt_def skipTex_def addFace_def Let_def
    using False by simp
  show ?thesis
  proof (cases "parseVertex numAtt skipTex 0 (Split s0)")
    case (Inl e)
    then show ?thesis
      using unfold parseVertex_error_shape[OF Inl] by auto
  next
    case r0: (Inr r0)
    show ?thesis
    proof (cases "parseVertex numAtt skipTex 1 (Split s1)")
      case (Inl e)
      then show ?thesis
        using unfold r0 parseVertex_error_shape[OF Inl] by auto
    next
      case r1: (Inr r1)
      show ?thesis
      proof (cases "parseVertex numAtt skipTex 2 (Split s2)")
        case (Inl e)
        then show ?thesis
          using unfold r0 r1 parseVertex_error_shape[OF Inl] by auto
      next
        case r2: (Inr r2)
        have "\<forall>s \<in> {s0, s1, s2}.
             length (Split s) = length (Split s0) \<and>
             (\<forall>x \<in> set (Split s). toIndex x \<noteq> Inl ZeroIndex) \<and>
             (length (Split s0) = 3 \<longrightarrow> (Split s ! 1 = []) = (Split s0 ! 1 = []))"
          using parseVertex_accepts[OF r0 pos le] parseVertex_accepts[OF r1 pos le]
            parseVertex_accepts[OF r2 pos le] sk
          by (auto simp: numAtt_def)
        with bad show ?thesis by blast
      qed
    qed
  qed
qed

lemma decodeLine_face:
  "Fields l = [''f'', s0, s1, s2] \<Longrightarrow>
   decodeLine pf n ob l =
     (case addFace ob [s0, s1, s2] of
        Panics p \<Rightarrow> Panics p
      | Returns (Inl err) \<Rightarrow> Returns (Inl (LineErr n err))
      | Returns (Inr ob') \<Rightarrow> Returns (Inr ob'))"
  by (simp add: decodeLine_def toElem_def HasPrefix_def)


lemma toIndex_zero: "ParseInt x = Inr 0 \<Longrightarrow> toIndex x = Inl ZeroIndex"
  by (simp add: toIndex_def)

lemma Decode_face_rejected:
  assumes "addFace ob [s0, s1, s2] = Returns (Inl e)"
    and "scanLoop pf 0 emptyObj pre = Returns (Inr ob)"
    and "Fields l = [''f'', s0, s1, s2]"
  shows "Decode pf (pre @ l # post, serr) = Returns (None, Some (LineErr (Suc (length pre)) e))"
  using Decode_at_line[OF assms(2), of l "LineErr (Suc (length pre)) e" post serr]
    decodeLine_face[OF assms(3), of pf "Suc (length pre)" ob] assms(1)
  by simp

lemma addFace_zero_iff:
  "addFace ob [s0, s1, s2] = Returns (Inl (VertexErr i ZeroIndex)) \<longleftrightarrow>
   zeroFirst [s0, s1, s2] i"
proof (cases "length (Split s0) > 3 \<or> length (Split s1) > 3 \<or> length (Split s2) > 3")
  case True
  then show ?thesis
    by (auto simp: addFace_def Let_def zeroFirst_def)
next
  case False
  define numAtt where "numAtt = length (Split s0)"
  define skipTex where "skipTex = (numAtt = 3 \<and> length (Split s0 ! 1) = 0)"
  have pos: "0 < numAtt" and le: "numAtt \<le> 3" and sk: "skipTex \<longrightarrow> numAtt = 3"
    using False Split_nonempty[of s0] by (auto simp: numAtt_def skipTex_def)
  note cl = parseVertex_clean_iff[OF pos le sk]
  note ze = parseVertex_zero_iff[OF pos le sk]
  have unfold: "addFace ob [s0, s1, s2] =
      (case parseVertex numAtt skipTex 0 (Split s0) of
         Inl err \<Rightarrow> Returns (Inl err)
       | Inr r0 \<Rightarrow>
      (case parseVertex numAtt skipTex 1 (Split s1) of
         Inl err \<Rightarrow> Returns (Inl err)
       | Inr r1 \<Rightarrow>
      (case parseVertex numAtt skipTex 2 (Split s2) of
         Inl err \<Rightarrow> Returns (Inl err)
       | Inr r2 \<Rightarrow>
      (case adjustVertex ob 0 r0 of
         Inl err \<Rightarrow> Returns (Inl err)
       | Inr a0 \<Rightarrow>
      (case adjustVertex ob 1 r1 of
         Inl err \<Rightarrow> Returns (Inl err)
       | Inr a1 \<Rightarrow>
      (case adjustVertex ob 2 r2 of
         Inl err \<Rightarrow> Returns (Inl err)
       | Inr a2 \<Rightarrow>
           Returns (Inr (ob\<lparr>Face := Face ob @ [(a0, a1, a2)]\<rparr>))))))))"
    unfolding numAtt_def skipTex_def addFace_def Let_def
    using False by simp
  have adj: "\<And>j v. (adjustVertex ob j v = Inl (VertexErr i ZeroIndex)) = False"
    by (auto simp: adjustVertex_def split: prod.splits sum.splits)
  have zf: "zeroFirst [s0, s1, s2] i \<longleftrightarrow>
      (i = 0 \<and> zeroAt numAtt skipTex (Split s0)) \<or>
      (i = 1 \<and> cleanVertex numAtt skipTex (Split s0) \<and> zeroAt numAtt skipTex (Split s1)) \<or>
      (i = 2 \<and> cleanVertex numAtt skipTex (Split s0) \<and> cleanVertex numAtt skipTex (Split s1) \<and>
         zeroAt numAtt skipTex (Split s2))"
    using False
    by (auto simp: zeroFirst_def Let_def numAtt_def skipTex_def numeral_3_eq_3 numeral_2_eq_2
                   less_Suc_eq All_less_Suc)
  show ?thesis
  proof (cases "parseVertex numAtt skipTex 0 (Split s0)")
    case (Inl e)
    then have "\<not> cleanVertex numAtt skipTex (Split s0)"
      using cl[of 0 "Split s0"] by auto
    then show ?thesis
      using unfold Inl ze[of 0 "Split s0" i] by (auto simp: zf)
  next
    case r0: (Inr r0)
    then have c0: "cleanVertex numAtt skipTex (Split s0)"
      using cl[of 0 "Split s0"] by blast
    then have nz0: "\<not> zeroAt numAtt skipTex (Split s0)"
      using ze[of 0 "Split s0" 0] r0 by auto
    show ?thesis
    proof (cases "parseVertex numAtt skipTex 1 (Split s1)")
      case (Inl e)
      then have "\<not> cleanVertex numAtt skipTex (Split s1)"
        using cl[of 1 "Split s1"] by auto
      then show ?thesis
        using unfold r0 Inl ze[of 1 "Split s1" i] c0 nz0 by (auto simp: zf)
    next
      case r1: (Inr r1)
      then have c1: "cleanVertex numAtt skipTex (Split s1)"
        using cl[of 1 "Split s1"] by blast
      then have nz1: "\<not> zeroAt numAtt skipTex (Split s1)"
        using ze[of 1 "Split s1" 1] r1 by auto
      show ?thesis
      proof (cases "parseVertex numAtt skipTex 2 (Split s2)")
        case (Inl e)
        then show ?thesis
          using unfold r0 r1 Inl ze[of 2 "Split s2" i] c0 c1 nz0 nz1 by (auto simp: zf)
      next
        case r2: (Inr r2)
        then have nz2: "\<not> zeroAt numAtt skipTex (Split s2)"
          using ze[of 2 "Split s2" 2] by auto
        show ?thesis
          using unfold r0 r1 r2 nz0 nz1 nz2
          by (auto simp: zf adj split: sum.splits)
      qed
    qed
  qed
qed


lemma zeroFirst_hasZeroField: "zeroFirst flds i \<Longrightarrow> hasZeroField flds"
proof -
  assume z: "zeroFirst flds i"
  then have i: "i < length flds"
    by (simp add: zeroFirst_def)
  from z obtain k where k: "k < length (Split (flds ! i))"
      "ParseInt (Split (flds ! i) ! k) = Inr 0"
    by (auto simp: zeroFirst_def zeroAt_def Let_def)
  have "flds ! i \<in> set flds" "Split (flds ! i) ! k \<in> set (Split (flds ! i))"
    using i k(1) by simp_all
  then show ?thesis
    using k(2) unfolding hasZeroField_def by blast
qed

lemma decodeLine_face_count:
  "Fields l = ''f'' # flds \<Longrightarrow> length flds \<noteq> 3 \<Longrightarrow>
   decodeLine pf n ob l = Returns (Inl (LineErr n (FieldCount facElem)))"
  by (simp add: decodeLine_def toElem_def HasPrefix_def)

lemma rejected_face_line:
  assumes pre: "scanLoop pf 0 emptyObj pre = Returns (Inr ob)"
    and fl: "Fields l = ''f'' # flds"
    and bad: "\<And>s0 s1 s2. flds = [s0, s1, s2] \<Longrightarrow>
      \<not> (\<forall>s \<in> {s0, s1, s2}.
             length (Split s) = length (Split s0) \<and>
             (\<forall>x \<in> set (Split s). toIndex x \<noteq> Inl ZeroIndex) \<and>
             (length (Split s0) = 3 \<longrightarrow> (Split s ! 1 = []) = (Split s0 ! 1 = [])))"
  shows "\<exists>e. Decode pf (pre @ l # post, serr) =
               Returns (None, Some (LineErr (Suc (length pre)) e)) \<and>
             (\<forall>i. (e = VertexErr i ZeroIndex) = zeroFirst flds i) \<and>
             ((\<forall>i. \<not> zeroFirst flds i) \<longrightarrow> kindOf e = SyntaxError)"
proof (cases "length flds = 3")
  case True
  then obtain s0 s1 s2 where flds: "flds = [s0, s1, s2]"
    by (auto simp: length_Suc_conv numeral_3_eq_3)
  from addFace_rejects[OF bad[OF flds], of ob] obtain e where
    e: "addFace ob [s0, s1, s2] = Returns (Inl e)" and
    shape: "(\<exists>i. e = VertexErr i ZeroIndex) \<or> kindOf e = SyntaxError"
    by blast
  have dec: "Decode pf (pre @ l # post, serr) =
      Returns (None, Some (LineErr (Suc (length pre)) e))"
    using Decode_face_rejected[OF e pre] fl flds by simp
  have iff: "\<forall>i. (e = VertexErr i ZeroIndex) = zeroFirst flds i"
    using addFace_zero_iff[of ob s0 s1 s2] e flds by auto
  show ?thesis
    using dec iff shape by blast
next
  case False
  have dec: "Decode pf (pre @ l # post, serr) =
      Returns (None, Some (LineErr (Suc (length pre)) (FieldCount facElem)))"
    using Decode_at_line[OF pre decodeLine_face_count[OF fl False]] by simp
  have "\<forall>i. \<not> zeroFirst flds i"
    using False by (simp add: zeroFirst_def)
  then show ?thesis
    using dec by auto
qed

text \<open>
  C6, as amended.  A face line with a sub-field that reads as the integer 0 is rejected
  whatever the sizes of the collections and whatever its number of vertices:
  \<^verbatim>\<open>Decode\<close> returns no document and an error with the number of the line.  The error
  is the zero-index error of vertex \<open>i\<close> exactly when a sub-field of vertex \<open>i\<close> that
  reads 0 is the first defect of the line in reading order; in every other case a syntax
  defect is met first and the error is a syntax error.  The line \<^verbatim>\<open>f 0 1 2\<close> fails
  with the zero-index error of vertex 0.
\<close>

theorem zero_index_rejected:
  "(hasZeroField flds \<and> scanLoop pf 0 emptyObj pre = Returns (Inr ob) \<and>
    Fields l = ''f'' # flds \<longrightarrow>
      (\<exists>e. Decode pf (pre @ l # post, serr) =
             Returns (None, Some (LineErr (Suc (length pre)) e)) \<and>
           (\<forall>i. (e = VertexErr i ZeroIndex) = zeroFirst flds i) \<and>
           ((\<forall>i. \<not> zeroFirst flds i) \<longrightarrow> kindOf e = SyntaxError))) \<and>
   (scanLoop pf 0 emptyObj pre = Returns (Inr ob) \<and> Fields l = [''f'', ''0'', ''1'', ''2''] \<longrightarrow>
      Decode pf (pre @ l # post, serr) =
        Returns (None, Some (LineErr (Suc (length pre)) (VertexErr 0 ZeroIndex))))"
proof (intro conjI impI)
  assume h: "hasZeroField flds \<and> scanLoop pf 0 emptyObj pre = Returns (Inr ob) \<and>
    Fields l = ''f'' # flds"
  have bad: "\<not> (\<forall>s \<in> {s0, s1, s2}.
             length (Split s) = length (Split s0) \<and>
             (\<forall>x \<in> set (Split s). toIndex x \<noteq> Inl ZeroIndex) \<and>
             (length (Split s0) = 3 \<longrightarrow> (Split s ! 1 = []) = (Split s0 ! 1 = [])))"
    if "flds = [s0, s1, s2]" for s0 s1 s2
    using h that toIndex_zero unfolding hasZeroField_def by fastforce
  show "\<exists>e. Decode pf (pre @ l # post, serr) =
             Returns (None, Some (LineErr (Suc (length pre)) e)) \<and>
           (\<forall>i. (e = VertexErr i ZeroIndex) = zeroFirst flds i) \<and>
           ((\<forall>i. \<not> zeroFirst flds i) \<longrightarrow> kindOf e = SyntaxError)"
    using rejected_face_line[of pf pre ob l flds post serr] h bad by blast
next
  assume h: "scanLoop pf 0 emptyObj pre = Returns (Inr ob) \<and>
    Fields l = [''f'', ''0'', ''1'', ''2'']"
  have "addFace ob [''0'', ''1'', ''2''] = Returns (Inl (VertexErr 0 ZeroIndex))"
    by (simp add: addFace_def parseVertex_def toIndex_samples)
  then show "Decode pf (pre @ l # post, serr) =
        Returns (None, Some (LineErr (Suc (length pre)) (VertexErr 0 ZeroIndex)))"
    using Decode_face_rejected h by blast
qed

theorem zero_index_rejected_witness:
  "Decode sampleFloat ([''v 0 0 0'', ''f 1 2 0'', ''v 1 1 1''], None) =
     Returns (None, Some (LineErr 2 (VertexErr 2 ZeroIndex)))"
proof -
  have pre: "scanLoop sampleFloat 0 emptyObj [''v 0 0 0''] =
      Returns (Inr \<lparr>Pos = [[0, 0, 0, 1]], Tex = [], Nor = [], Face = []\<rparr>)"
    by code_simp
  have fl: "Fields ''f 1 2 0'' = ''f'' # [''1'', ''2'', ''0'']"
    by code_simp
  have z: "hasZeroField [''1'', ''2'', ''0'']"
    by code_simp
  have zf: "zeroFirst [''1'', ''2'', ''0''] 2"
    by code_simp
  from zero_index_rejected[THEN conjunct1, rule_format, OF conjI, OF z conjI, OF pre fl,
        of "[''v 1 1 1'']" None]
  obtain e where
    d: "Decode sampleFloat ([''v 0 0 0''] @ ''f 1 2 0'' # [''v 1 1 1''], None) =
          Returns (None, Some (LineErr (Suc (length [''v 0 0 0''])) e))" and
    i: "\<forall>i. (e = VertexErr i ZeroIndex) = zeroFirst [''1'', ''2'', ''0''] i"
    by blast
  from i zf have "e = VertexErr 2 ZeroIndex"
    by blast
  then show ?thesis
    using d by (simp add: numeral_2_eq_2)
qed

text \<open>
  C6 as stated fails: in \<^verbatim>\<open>f 1/1 0 2\<close> the second vertex holds the index 0, and the
  line is rejected for its number of attributes, a syntax error, before that index is read.
\<close>

theorem zero_index_not_always_reported:
  "Decode sampleFloat ([''f 1/1 0 2''], None) =
     Returns (None, Some (LineErr 1 (AttrCountMismatch 1))) \<and>
   kindOf (LineErr 1 (AttrCountMismatch 1)) = SyntaxError \<and>
   hasZeroField [''1/1'', ''0'', ''2'']"
  by code_simp


lemma Split_samples:
  "Split ''1/1/1'' = [''1'', ''1'', ''1'']" "Split ''2//2'' = [''2'', [], ''2'']"
  by simp_all

lemma mixed_elision_mismatch:
  assumes "length flds = 3" and "''1/1/1'' \<in> set flds" and "''2//2'' \<in> set flds"
  shows "faceMismatch flds"
proof (cases "length (Split (flds ! 0)) = 3")
  case False
  then have "\<exists>s \<in> set flds. length (Split s) \<noteq> length (Split (flds ! 0))"
    using assms(2) by (intro bexI[of _ "''1/1/1''"]) (simp_all add: Split_samples)
  then show ?thesis
    by (simp add: faceMismatch_def)
next
  case True
  show ?thesis
  proof (cases "Split (flds ! 0) ! 1 = []")
    case e: True
    have "\<exists>s \<in> set flds. length (Split s) = 3 \<and>
        (Split s ! 1 = []) \<noteq> (Split (flds ! 0) ! 1 = [])"
      using assms(2) e by (intro bexI[of _ "''1/1/1''"]) (simp_all add: Split_samples)
    then show ?thesis
      using True by (simp add: faceMismatch_def)
  next
    case e: False
    have "\<exists>s \<in> set flds. length (Split s) = 3 \<and>
        (Split s ! 1 = []) \<noteq> (Split (flds ! 0) ! 1 = [])"
      using assms(3) e by (intro bexI[of _ "''2//2''"]) (simp_all add: Split_samples)
    then show ?thesis
      using True by (simp add: faceMismatch_def)
  qed
qed

text \<open>
  C8, as amended.  A face line in which a vertex has another number of sub-fields than the
  first vertex, or (with three sub-fields) another elision of the texcoord, is rejected:
  \<^verbatim>\<open>Decode\<close> returns no document and an error with the number of the line.  The error
  is a syntax error, except when a sub-field that reads 0 is the first defect of the line
  in reading order: then, and only then, it is the zero-index error of that vertex.  So it
  is a syntax error whenever no sub-field reads 0.  Every face line of three vertices
  with both \<^verbatim>\<open>1/1/1\<close> and \<^verbatim>\<open>2//2\<close> among them is such a line.  With
  \<^verbatim>\<open>2//2\<close> first and \<^verbatim>\<open>1/1/1\<close> second the error is the one for inconsistent
  elision; with \<^verbatim>\<open>1/1/1\<close> first and \<^verbatim>\<open>2//2\<close> second the elision is not tested
  and the error is that of reading the empty texcoord as a number.
\<close>

theorem face_consistency_enforced:
  "(faceMismatch flds \<and> scanLoop pf 0 emptyObj pre = Returns (Inr ob) \<and>
    Fields l = ''f'' # flds \<longrightarrow>
      (\<exists>e. Decode pf (pre @ l # post, serr) =
             Returns (None, Some (LineErr (Suc (length pre)) e)) \<and>
           (\<forall>i. (e = VertexErr i ZeroIndex) = zeroFirst flds i) \<and>
           ((\<forall>i. \<not> zeroFirst flds i) \<longrightarrow> kindOf e = SyntaxError) \<and>
           (\<not> hasZeroField flds \<longrightarrow> kindOf e = SyntaxError))) \<and>
   (length flds = 3 \<and> ''1/1/1'' \<in> set flds \<and> ''2//2'' \<in> set flds \<longrightarrow> faceMismatch flds) \<and>
   (scanLoop pf 0 emptyObj pre = Returns (Inr ob) \<and> length (Split x) \<le> 3 \<and>
    Fields l = [''f'', ''1/1/1'', ''2//2'', x] \<longrightarrow>
      Decode pf (pre @ l # post, serr) =
        Returns (None, Some (LineErr (Suc (length pre)) (VertexErr 1 (NumError []))))) \<and>
   (scanLoop pf 0 emptyObj pre = Returns (Inr ob) \<and> length (Split x) \<le> 3 \<and>
    Fields l = [''f'', ''2//2'', ''1/1/1'', x] \<longrightarrow>
      Decode pf (pre @ l # post, serr) =
        Returns (None, Some (LineErr (Suc (length pre)) (TexElision 1))))"
proof (intro conjI impI)
  assume h: "faceMismatch flds \<and> scanLoop pf 0 emptyObj pre = Returns (Inr ob) \<and>
    Fields l = ''f'' # flds"
  have bad: "\<not> (\<forall>s \<in> {s0, s1, s2}.
             length (Split s) = length (Split s0) \<and>
             (\<forall>x \<in> set (Split s). toIndex x \<noteq> Inl ZeroIndex) \<and>
             (length (Split s0) = 3 \<longrightarrow> (Split s ! 1 = []) = (Split s0 ! 1 = [])))"
    if "flds = [s0, s1, s2]" for s0 s1 s2
    using h that unfolding faceMismatch_def by fastforce
  from rejected_face_line[of pf pre ob l flds post serr] h bad
  obtain e where
    d: "Decode pf (pre @ l # post, serr) =
          Returns (None, Some (LineErr (Suc (length pre)) e))" and
    i: "\<forall>i. (e = VertexErr i ZeroIndex) = zeroFirst flds i" and
    s: "(\<forall>i. \<not> zeroFirst flds i) \<longrightarrow> kindOf e = SyntaxError"
    by blast
  have "\<not> hasZeroField flds \<longrightarrow> kindOf e = SyntaxError"
    using s zeroFirst_hasZeroField by blast
  then show "\<exists>e. Decode pf (pre @ l # post, serr) =
             Returns (None, Some (LineErr (Suc (length pre)) e)) \<and>
           (\<forall>i. (e = VertexErr i ZeroIndex) = zeroFirst flds i) \<and>
           ((\<forall>i. \<not> zeroFirst flds i) \<longrightarrow> kindOf e = SyntaxError) \<and>
           (\<not> hasZeroField flds \<longrightarrow> kindOf e = SyntaxError)"
    using d i s by blast
next
  assume "length flds = 3 \<and> ''1/1/1'' \<in> set flds \<and> ''2//2'' \<in> set flds"
  then show "faceMismatch flds"
    using mixed_elision_mismatch by blast
next
  assume h: "scanLoop pf 0 emptyObj pre = Returns (Inr ob) \<and> length (Split x) \<le> 3 \<and>
    Fields l = [''f'', ''1/1/1'', ''2//2'', x]"
  then have "addFace ob [''1/1/1'', ''2//2'', x] = Returns (Inl (VertexErr 1 (NumError [])))"
    by (simp add: addFace_def Let_def parseVertex_def toIndex_samples)
  then show "Decode pf (pre @ l # post, serr) =
        Returns (None, Some (LineErr (Suc (length pre)) (VertexErr 1 (NumError []))))"
    using Decode_face_rejected h by blast
next
  assume h: "scanLoop pf 0 emptyObj pre = Returns (Inr ob) \<and> length (Split x) \<le> 3 \<and>
    Fields l = [''f'', ''2//2'', ''1/1/1'', x]"
  then have "addFace ob [''2//2'', ''1/1/1'', x] = Returns (Inl (TexElision 1))"
    by (simp add: addFace_def Let_def parseVertex_def toIndex_samples)
  then show "Decode pf (pre @ l # post, serr) =
        Returns (None, Some (LineErr (Suc (length pre)) (TexElision 1)))"
    using Decode_face_rejected h by blast
qed

theorem face_consistency_enforced_witness:
  "Decode sampleFloat ([''v 0 0 0'', ''f 1 1/1 1'', ''v 1 1 1''], None) =
     Returns (None, Some (LineErr 2 (AttrCountMismatch 1))) \<and>
   kindOf (AttrCountMismatch 1) = SyntaxError"
proof -
  have pre: "scanLoop sampleFloat 0 emptyObj [''v 0 0 0''] =
      Returns (Inr \<lparr>Pos = [[0, 0, 0, 1]], Tex = [], Nor = [], Face = []\<rparr>)"
    by code_simp
  have fl: "Fields ''f 1 1/1 1'' = ''f'' # [''1'', ''1/1'', ''1'']"
    by code_simp
  have m: "faceMismatch [''1'', ''1/1'', ''1'']"
    by code_simp
  have nz: "\<not> hasZeroField [''1'', ''1/1'', ''1'']"
    by code_simp
  have ev: "Decode sampleFloat ([''v 0 0 0'', ''f 1 1/1 1'', ''v 1 1 1''], None) =
     Returns (None, Some (LineErr 2 (AttrCountMismatch 1)))"
    by code_simp
  from face_consistency_enforced[THEN conjunct1, rule_format, OF conjI, OF m conjI, OF pre fl,
        of "[''v 1 1 1'']" None]
  obtain e where
    d: "Decode sampleFloat ([''v 0 0 0''] @ ''f 1 1/1 1'' # [''v 1 1 1''], None) =
          Returns (None, Some (LineErr (Suc (length [''v 0 0 0''])) e))" and
    k: "\<not> hasZeroField [''1'', ''1/1'', ''1''] \<longrightarrow> kindOf e = SyntaxError"
    by blast
  from d ev have "e = AttrCountMismatch 1"
    by simp
  then show ?thesis
    using ev k nz by simp
qed

text \<open>
  C8 as stated fails twice.  In \<^verbatim>\<open>f 0 1/1 2\<close> the second vertex has two sub-fields
  and the first has one, and the line is rejected with the zero-index error of the first
  vertex, an index error.  The line \<^verbatim>\<open>f 1/1/1 2//2 3/3/3\<close> is rejected with the
  error of reading the empty texcoord of the second vertex as a number, not with the error
  for inconsistent elision.
\<close>

theorem face_mismatch_behind_zero_index:
  "Decode sampleFloat ([''f 0 1/1 2''], None) =
     Returns (None, Some (LineErr 1 (VertexErr 0 ZeroIndex))) \<and>
   kindOf (LineErr 1 (VertexErr 0 ZeroIndex)) = IndexError \<and>
   faceMismatch [''0'', ''1/1'', ''2''] \<and>
   Decode sampleFloat ([''f 1/1/1 2//2 3/3/3''], None) =
     Returns (None, Some (LineErr 1 (VertexErr 1 (NumError [])))) \<and>
   VertexErr 1 (NumError []) \<noteq> TexElision 1"
  by code_simp

subsection \<open>The callback mode\<close>

lemma streamLine_other: "\<not> isElemLine l \<Longrightarrow> streamLine pf n face l = Returns (None, face)"
  by (cases "Fields l"; cases "toElem (hd (Fields l))")
     (auto simp: isElemLine_def streamLine_def)

lemma splitAll_length: "splitAll i vs = Inr vertices \<Longrightarrow> length vertices = length vs"
  by (induction vs arbitrary: i vertices) (auto simp: Let_def split: if_splits sum.splits)

lemma parseFace_returns:
  "flds \<noteq> [] \<Longrightarrow> \<exists>e. parseFace flds face = Returns (e, face)"
proof (cases "splitAll 0 flds")
  case (Inl e)
  then show ?thesis by (simp add: parseFace_def)
next
  case (Inr vertices)
  assume "flds \<noteq> []"
  then have "vertices \<noteq> []"
    using splitAll_length[OF Inr] by auto
  then show ?thesis
    using Inr by (auto simp: parseFace_def Let_def split: list.splits option.splits)
qed

lemma streamLine_elem:
  assumes "isElemLine l"
  shows "streamLine pf n face l = Panics NilCall \<or>
         (\<exists>e. streamLine pf n face l = Returns (Some (LineErr n e), face))"
proof -
  obtain f rest where fl: "Fields l = f # rest"
    using assms by (auto simp: isElemLine_def split: list.splits)
  consider "toElem f = posElem" | "toElem f = texElem" | "toElem f = norElem" | "toElem f = facElem"
    using assms fl by (auto simp: isElemLine_def)
  then show ?thesis
  proof cases
    case 1
    then show ?thesis
      using fl
      by (auto simp: streamLine_def callSink_def emitPos_def split: sum.splits
               dest: parseFloats_error)
  next
    case 2
    then show ?thesis
      using fl
      by (auto simp: streamLine_def callSink_def emitTex_def split: sum.splits
               dest: parseFloats_error)
  next
    case 3
    then show ?thesis
      using fl
      by (auto simp: streamLine_def callSink_def emitNor_def split: sum.splits
               dest: parseFloats_error)
  next
    case 4
    show ?thesis
    proof (cases "length rest = 3")
      case True
      then have "rest \<noteq> []" by auto
      then obtain e where "parseFace rest face = Returns (e, face)"
        using parseFace_returns by blast
      then show ?thesis
        using fl 4 True
        by (cases e) (auto simp: streamLine_def callSink_def emitFace_def)
    next
      case False
      then show ?thesis
        using fl 4 by (auto simp: streamLine_def)
    qed
  qed
qed

lemma streamLoop_skip:
  "\<forall>x \<in> set pre. \<not> isElemLine x \<Longrightarrow>
   streamLoop pf n face (pre @ rest) = streamLoop pf (n + length pre) face rest"
  by (induction pre arbitrary: n) (auto simp: streamLine_other)


lemma addFace_accepted_parseFace:
  assumes "addFace ob [s0, s1, s2] = Returns (Inr ob')"
  shows "parseFace [s0, s1, s2] face = Returns (None, face)"
proof -
  have small: "\<not> 3 < length (Split s0)" "\<not> 3 < length (Split s1)" "\<not> 3 < length (Split s2)"
    using assms by (auto simp: addFace_def Let_def split: if_splits)
  obtain v rest where v0: "Split s0 = v # rest"
    using Split_nonempty[of s0] by (cases "Split s0") auto
  obtain r0 r1 r2 where
    "parseVertex (length (Split s0)) (length (Split s0) = 3 \<and> length (Split s0 ! 1) = 0) 0
       (Split s0) = Inr r0"
    "parseVertex (length (Split s0)) (length (Split s0) = 3 \<and> length (Split s0 ! 1) = 0) 1
       (Split s1) = Inr r1"
    "parseVertex (length (Split s0)) (length (Split s0) = 3 \<and> length (Split s0 ! 1) = 0) 2
       (Split s2) = Inr r2"
    using assms small unfolding addFace_def Let_def
    by (auto split: sum.splits)
  then show ?thesis
    using small v0 unfolding parseFace_def Let_def
    by (simp add: Let_def numeral_2_eq_2)
qed

lemma streamLine_of_decoded:
  assumes "decodeLine pf n ob l = Returns (Inr ob')" and "isElemLine l"
  shows "streamLine pf n face l = Panics NilCall"
proof -
  obtain f rest where fl: "Fields l = f # rest"
    using assms(2) by (auto simp: isElemLine_def split: list.splits)
  consider "toElem f = posElem" | "toElem f = texElem" | "toElem f = norElem" | "toElem f = facElem"
    using assms(2) fl by (auto simp: isElemLine_def)
  then show ?thesis
  proof cases
    case 1
    then show ?thesis
      using fl assms(1)
      by (auto simp: decodeLine_def streamLine_def callSink_def emitPos_def
               split: sum.splits if_splits)
  next
    case 2
    then show ?thesis
      using fl assms(1)
      by (auto simp: decodeLine_def streamLine_def callSink_def emitTex_def
               split: sum.splits if_splits)
  next
    case 3
    then show ?thesis
      using fl assms(1)
      by (auto simp: decodeLine_def streamLine_def callSink_def emitNor_def
               split: sum.splits if_splits)
  next
    case 4
    have len: "length rest = 3"
      using fl 4 assms(1) by (auto simp: decodeLine_def split: if_splits)
    then obtain s0 s1 s2 where rest: "rest = [s0, s1, s2]"
      by (auto simp: length_Suc_conv numeral_3_eq_3)
    have "addFace ob [s0, s1, s2] = Returns (Inr ob')"
      using fl 4 rest assms(1)
      by (auto simp: decodeLine_def split: outcome.splits sum.splits)
    from addFace_accepted_parseFace[OF this, of face] show ?thesis
      using fl 4 rest by (simp add: streamLine_def callSink_def emitFace_def)
  qed
qed

text \<open>
  C4.  When the input has an element line (\<^verbatim>\<open>v\<close>, \<^verbatim>\<open>vt\<close>, \<^verbatim>\<open>vn\<close> or
  \<^verbatim>\<open>f\<close>), \<^verbatim>\<open>Stream\<close> does not get past the first of them, line \<open>n\<close>: it
  panics there on the call of a sink that is \<^verbatim>\<open>nil\<close>, or it returns an error of line
  \<open>n\<close> without having called a sink.  It panics whenever that line is one that
  \<^verbatim>\<open>Decode\<close> accepts.  So no element is ever emitted.
\<close>

theorem Stream_fails_at_first_element:
  "(\<exists>x \<in> set lines. isElemLine x) \<longrightarrow>
     (let n = Suc (length (takeWhile (\<lambda>x. \<not> isElemLine x) lines)) in
        (Stream pf (lines, serr) = Panics NilCall \<or>
         (\<exists>e. Stream pf (lines, serr) = Returns (Some (LineErr n e)))) \<and>
        (\<forall>ob ob'. decodeLine pf n ob (lines ! (n - 1)) = Returns (Inr ob') \<longrightarrow>
           Stream pf (lines, serr) = Panics NilCall))"
proof
  assume ex: "\<exists>x \<in> set lines. isElemLine x"
  define pre where "pre = takeWhile (\<lambda>x. \<not> isElemLine x) lines"
  define rest where "rest = dropWhile (\<lambda>x. \<not> isElemLine x) lines"
  have ne: "rest \<noteq> []"
    using ex by (auto simp: rest_def)
  then obtain l post where rest: "rest = l # post"
    by (cases rest) auto
  have l: "isElemLine l"
    using hd_dropWhile[of "\<lambda>x. \<not> isElemLine x" lines] ne rest by (auto simp: rest_def)
  have lines: "lines = pre @ l # post"
  proof -
    have "lines = pre @ rest"
      unfolding pre_def rest_def by simp
    then show ?thesis
      by (simp only: rest)
  qed
  have skip: "\<forall>x \<in> set pre. \<not> isElemLine x"
    by (auto simp: pre_def dest: set_takeWhileD)
  have loop: "streamLoop pf 0 [] lines =
      (case streamLine pf (Suc (length pre)) [] l of
         Panics c \<Rightarrow> Panics c
       | Returns (Some err, face') \<Rightarrow> Returns (Some err)
       | Returns (None, face') \<Rightarrow> streamLoop pf (Suc (length pre)) face' post)"
    using streamLoop_skip[OF skip, of pf 0 "[]" "l # post"] by (simp add: lines)
  have nth: "lines ! length pre = l"
    by (simp add: lines)
  have a: "Stream pf (lines, serr) = Panics NilCall \<or>
         (\<exists>e. Stream pf (lines, serr) = Returns (Some (LineErr (Suc (length pre)) e)))"
    using streamLine_elem[OF l, of pf "Suc (length pre)" "[]"] loop
    by (auto simp: Stream_def)
  have b: "\<forall>ob ob'. decodeLine pf (Suc (length pre)) ob l = Returns (Inr ob') \<longrightarrow>
           Stream pf (lines, serr) = Panics NilCall"
    using streamLine_of_decoded[OF _ l, of pf "Suc (length pre)" _ _ "[]"] loop
    by (auto simp: Stream_def)
  show "let n = Suc (length (takeWhile (\<lambda>x. \<not> isElemLine x) lines)) in
        (Stream pf (lines, serr) = Panics NilCall \<or>
         (\<exists>e. Stream pf (lines, serr) = Returns (Some (LineErr n e)))) \<and>
        (\<forall>ob ob'. decodeLine pf n ob (lines ! (n - 1)) = Returns (Inr ob') \<longrightarrow>
           Stream pf (lines, serr) = Panics NilCall)"
    using a b nth by (simp add: Let_def pre_def[symmetric])
qed

theorem Stream_fails_at_first_element_witness:
  "Stream sampleFloat ([''# cube'', ''v 0 0 0'', ''f 1 1 1''], None) = Panics NilCall"
proof -
  have ex: "\<exists>x \<in> set [''# cube'', ''v 0 0 0'', ''f 1 1 1'']. isElemLine x"
    by code_simp
  have n: "Suc (length (takeWhile (\<lambda>x. \<not> isElemLine x) [''# cube'', ''v 0 0 0'', ''f 1 1 1''])) = 2"
    by code_simp
  have d: "decodeLine sampleFloat 2 emptyObj ''v 0 0 0'' =
      Returns (Inr \<lparr>Pos = [[0, 0, 0, 1]], Tex = [], Nor = [], Face = []\<rparr>)"
    by code_simp
  show ?thesis
    using Stream_fails_at_first_element[rule_format, OF ex,
        of sampleFloat None, unfolded Let_def n, THEN conjunct2, rule_format,
        of emptyObj "\<lparr>Pos = [[0, 0, 0, 1]], Tex = [], Nor = [], Face = []\<rparr>"] d
    by simp
qed

subsection \<open>The deduplication loop on documents with indices in range\<close>

text \<open>
  Whenever the loop of \<^verbatim>\<open>loadModel\<close> returns, the index slice has three entries per
  face, every entry is below the number of flat positions, and there is one flat position
  per distinct vertex triple; the conversion to \<^verbatim>\<open>uint32\<close> can only make an index
  smaller.  The loop returns when every position index is in range and, for a collection
  of texcoords or normals that is not empty, every index into it is in range.
\<close>

lemma unat_of_nat_le: "unat (of_nat n :: 32 word) \<le> n"
  by (simp add: unat_of_nat)

lemma dedupVertex_step:
  assumes "dedupVertex ob (m, kv) v = Returns (m', kv')"
  shows "length (idx m') = Suc (length (idx m))"
    and "dom kv' = insert v (dom kv)"
    and "length (pos m') = (if v \<in> dom kv then length (pos m) else Suc (length (pos m)))"
    and "(\<forall>k \<in> ran kv. unat k < length (pos m)) \<Longrightarrow>
         (\<forall>i \<in> set (idx m). unat i < length (pos m)) \<Longrightarrow>
         (\<forall>k \<in> ran kv'. unat k < length (pos m')) \<and>
         (\<forall>i \<in> set (idx m'). unat i < length (pos m'))"
proof -
  show "length (idx m') = Suc (length (idx m))"
    using assms
    by (auto simp: dedupVertex_def Let_def split: option.splits outcome.splits if_splits)
  show "dom kv' = insert v (dom kv)"
    using assms
    by (auto simp: dedupVertex_def Let_def split: option.splits outcome.splits if_splits)
  show "length (pos m') = (if v \<in> dom kv then length (pos m) else Suc (length (pos m)))"
    using assms
    by (auto simp: dedupVertex_def Let_def split: option.splits outcome.splits if_splits)
  assume r: "\<forall>k \<in> ran kv. unat k < length (pos m)"
    and i: "\<forall>i \<in> set (idx m). unat i < length (pos m)"
  show "(\<forall>k \<in> ran kv'. unat k < length (pos m')) \<and>
         (\<forall>i \<in> set (idx m'). unat i < length (pos m'))"
  proof (cases "kv v")
    case (Some k)
    then have "k \<in> ran kv" by (rule ranI)
    then show ?thesis
      using assms Some r i by (auto simp: dedupVertex_def)
  next
    case None
    have new: "unat (of_nat (length (pos m)) :: 32 word) < Suc (length (pos m))"
      using unat_of_nat_le[of "length (pos m)"] by simp
    have kv': "kv' = kv(v \<mapsto> of_nat (length (pos m)))" and
      idx': "idx m' = idx m @ [of_nat (length (pos m))]" and
      pos': "length (pos m') = Suc (length (pos m))"
      using assms None
      by (auto simp: dedupVertex_def Let_def split: outcome.splits if_splits)
    have "ran kv' = insert (of_nat (length (pos m))) (ran kv)"
      using None by (simp add: kv')
    then show ?thesis
      using r i new idx' pos' by (auto simp: less_Suc_eq)
  qed
qed


lemma dedupVerts_inv:
  assumes "dedupVerts ob (m, kv) vs = Returns (m', kv')"
    and "finite (dom kv)" and "length (pos m) = card (dom kv)"
    and "\<forall>k \<in> ran kv. unat k < length (pos m)"
    and "\<forall>i \<in> set (idx m). unat i < length (pos m)"
  shows "length (idx m') = length (idx m) + length vs \<and>
         dom kv' = dom kv \<union> set vs \<and> finite (dom kv') \<and>
         length (pos m') = card (dom kv') \<and>
         (\<forall>k \<in> ran kv'. unat k < length (pos m')) \<and>
         (\<forall>i \<in> set (idx m'). unat i < length (pos m'))"
  using assms
proof (induction vs arbitrary: m kv)
  case Nil
  then show ?case by simp
next
  case (Cons v vs)
  from Cons.prems(1) obtain m1 kv1 where
    st: "dedupVertex ob (m, kv) v = Returns (m1, kv1)" and
    rest: "dedupVerts ob (m1, kv1) vs = Returns (m', kv')"
    by (auto split: outcome.splits)
  note s = dedupVertex_step[OF st]
  have fin: "finite (dom kv1)"
    using s(2) Cons.prems(2) by simp
  have card: "length (pos m1) = card (dom kv1)"
    using s(2,3) Cons.prems(2,3) by (auto simp: insert_absorb)
  have bounds: "(\<forall>k \<in> ran kv1. unat k < length (pos m1)) \<and>
      (\<forall>i \<in> set (idx m1). unat i < length (pos m1))"
    using s(4) Cons.prems(4,5) by blast
  from Cons.IH[OF rest fin card] bounds
  show ?case
    using s(1,2) by auto
qed

lemma dedupFaces_inv:
  assumes "dedupFaces ob (m, kv) fs = Returns (m', kv')"
    and "finite (dom kv)" and "length (pos m) = card (dom kv)"
    and "\<forall>k \<in> ran kv. unat k < length (pos m)"
    and "\<forall>i \<in> set (idx m). unat i < length (pos m)"
  shows "length (idx m') = length (idx m) + 3 * length fs \<and>
         dom kv' = dom kv \<union> (\<Union>f \<in> set fs. set (faceVerts f)) \<and> finite (dom kv') \<and>
         length (pos m') = card (dom kv') \<and>
         (\<forall>k \<in> ran kv'. unat k < length (pos m')) \<and>
         (\<forall>i \<in> set (idx m'). unat i < length (pos m'))"
  using assms
proof (induction fs arbitrary: m kv)
  case Nil
  then show ?case by simp
next
  case (Cons f fs)
  from Cons.prems(1) obtain m1 kv1 where
    st: "dedupVerts ob (m, kv) (faceVerts f) = Returns (m1, kv1)" and
    rest: "dedupFaces ob (m1, kv1) fs = Returns (m', kv')"
    by (auto split: outcome.splits)
  have three: "length (faceVerts f) = 3"
    by (cases f) (auto simp: faceVerts_def)
  from dedupVerts_inv[OF st Cons.prems(2,3,4,5)] have
    a1: "length (idx m1) = length (idx m) + length (faceVerts f)" and
    a2: "dom kv1 = dom kv \<union> set (faceVerts f)" and
    a3: "finite (dom kv1)" and
    a4: "length (pos m1) = card (dom kv1)" and
    a5: "\<forall>k \<in> ran kv1. unat k < length (pos m1)" and
    a6: "\<forall>i \<in> set (idx m1). unat i < length (pos m1)"
    by blast+
  from Cons.IH[OF rest a3 a4 a5 a6] have
    b1: "length (idx m') = length (idx m1) + 3 * length fs" and
    b2: "dom kv' = dom kv1 \<union> (\<Union>f \<in> set fs. set (faceVerts f))" and
    b3: "finite (dom kv')" and
    b4: "length (pos m') = card (dom kv')" and
    b5: "\<forall>k \<in> ran kv'. unat k < length (pos m')" and
    b6: "\<forall>i \<in> set (idx m'). unat i < length (pos m')"
    by blast+
  have c1: "length (idx m') = length (idx m) + 3 * length (f # fs)"
    using a1 b1 three by simp
  have c2: "dom kv' = dom kv \<union> (\<Union>g \<in> set (f # fs). set (faceVerts g))"
    unfolding b2 a2 by (simp add: Un_assoc)
  show ?case
    using c1 c2 b3 b4 b5 b6 by blast
qed

lemma dedup_properties:
  fixes ob :: "'f Obj"
  assumes "dedup ob = Returns m"
  shows "length (idx m) = 3 * length (Face ob) \<and>
         (\<forall>i \<in> set (idx m). unat i < length (pos m)) \<and>
         length (pos m) = card (\<Union>f \<in> set (Face ob). set (faceVerts f))"
proof -
  from assms obtain kv where
    r: "dedupFaces ob (emptyModel, Map.empty) (Face ob) = Returns (m, kv)"
    by (auto simp: dedup_def split: outcome.splits)
  have fin: "finite (dom (Map.empty :: vertex \<rightharpoonup> 32 word))"
    by simp
  have crd: "length (pos (emptyModel :: 'f model)) = card (dom (Map.empty :: vertex \<rightharpoonup> 32 word))"
    by (simp add: emptyModel_def)
  have r0: "\<forall>k \<in> ran (Map.empty :: vertex \<rightharpoonup> 32 word). unat k < length (pos (emptyModel :: 'f model))"
    by simp
  have i0: "\<forall>i \<in> set (idx (emptyModel :: 'f model)). unat i < length (pos (emptyModel :: 'f model))"
    by (simp add: emptyModel_def)
  note inv = dedupFaces_inv[OF r fin crd r0 i0]
  have l: "length (idx m) = 3 * length (Face ob)"
    using inv[THEN conjunct1] by (simp add: emptyModel_def)
  have d: "dom kv = (\<Union>f \<in> set (Face ob). set (faceVerts f))"
    using inv[THEN conjunct2, THEN conjunct1] by simp
  have c: "length (pos m) = card (dom kv)"
    using inv by blast
  have b: "\<forall>i \<in> set (idx m). unat i < length (pos m)"
    using inv by blast
  show ?thesis
    unfolding d[symmetric] using l c b by blast
qed

lemma index_returns: "0 \<le> i \<Longrightarrow> i < int (length xs) \<Longrightarrow> index xs i = Returns (xs ! nat i)"
  by (simp add: index_def)

lemma dedupVertex_returns:
  assumes "0 \<le> fst v" and "fst v < int (length (Pos ob))"
    and "Tex ob \<noteq> [] \<Longrightarrow> 0 \<le> fst (snd v) \<and> fst (snd v) < int (length (Tex ob))"
    and "Nor ob \<noteq> [] \<Longrightarrow> 0 \<le> snd (snd v) \<and> snd (snd v) < int (length (Nor ob))"
  shows "\<exists>st'. dedupVertex ob st v = Returns st'"
  using assms
  by (cases st) (auto simp: dedupVertex_def Let_def index_def split: option.splits)


lemma dedupVerts_returns:
  assumes "\<forall>v \<in> set vs. 0 \<le> fst v \<and> fst v < int (length (Pos ob)) \<and>
      (Tex ob \<noteq> [] \<longrightarrow> 0 \<le> fst (snd v) \<and> fst (snd v) < int (length (Tex ob))) \<and>
      (Nor ob \<noteq> [] \<longrightarrow> 0 \<le> snd (snd v) \<and> snd (snd v) < int (length (Nor ob)))"
  shows "\<exists>st'. dedupVerts ob st vs = Returns st'"
  using assms
proof (induction vs arbitrary: st)
  case Nil
  show ?case by simp
next
  case (Cons v vs)
  then obtain st1 where "dedupVertex ob st v = Returns st1"
    using dedupVertex_returns[of v ob st] by auto
  then show ?case
    using Cons by simp
qed

lemma dedupFaces_returns:
  assumes "\<forall>f \<in> set fs. \<forall>v \<in> set (faceVerts f).
      0 \<le> fst v \<and> fst v < int (length (Pos ob)) \<and>
      (Tex ob \<noteq> [] \<longrightarrow> 0 \<le> fst (snd v) \<and> fst (snd v) < int (length (Tex ob))) \<and>
      (Nor ob \<noteq> [] \<longrightarrow> 0 \<le> snd (snd v) \<and> snd (snd v) < int (length (Nor ob)))"
  shows "\<exists>st'. dedupFaces ob st fs = Returns st'"
  using assms
proof (induction fs arbitrary: st)
  case Nil
  show ?case by simp
next
  case (Cons f fs)
  then obtain st1 where "dedupVerts ob st (faceVerts f) = Returns st1"
    using dedupVerts_returns[of "faceVerts f" ob st] by auto
  then show ?case
    using Cons by simp
qed

lemma dedup_in_bounds:
  fixes ob :: "'f Obj"
  assumes "\<forall>f \<in> set (Face ob). \<forall>v \<in> set (faceVerts f).
      0 \<le> fst v \<and> fst v < int (length (Pos ob)) \<and>
      (Tex ob \<noteq> [] \<longrightarrow> 0 \<le> fst (snd v) \<and> fst (snd v) < int (length (Tex ob))) \<and>
      (Nor ob \<noteq> [] \<longrightarrow> 0 \<le> snd (snd v) \<and> snd (snd v) < int (length (Nor ob)))"
  shows "\<exists>m. dedup ob = Returns m \<and>
         length (idx m) = 3 * length (Face ob) \<and>
         (\<forall>i \<in> set (idx m). unat i < length (pos m)) \<and>
         length (pos m) = card (\<Union>f \<in> set (Face ob). set (faceVerts f))"
proof -
  obtain st where "dedupFaces ob (emptyModel, Map.empty) (Face ob) = Returns st"
    using dedupFaces_returns[OF assms] by blast
  then have "dedup ob = Returns (fst st)"
    by (simp add: dedup_def)
  then show ?thesis
    using dedup_properties by blast
qed

end
